theory Spec2Isabelle
  imports Main "HOL-Library.Char_ord" "HOL-Library.List_Lexorder" "HOL-Library.Multiset"
    "HOL-Library.Word"
begin

section \<open>Strings and paths\<close>

text \<open>
  Go strings are byte sequences; they are modelled as \<open>string\<close> (a list of \<open>char\<close>),
  compared bytewise and lexicographically as Go's \<open><\<close> does. The helpers below are the
  standard library functions the server calls (\<open>strings.HasPrefix\<close>,
  \<open>strings.TrimPrefix\<close>, \<open>strings.Contains\<close>, \<open>strings.ToLower\<close>, and
  \<open>filepath.Clean\<close>, \<open>filepath.Join\<close>, \<open>filepath.Rel\<close>, \<open>filepath.Dir\<close> with the
  Unix separator), written after their documented behaviour.
\<close>

definition HasPrefix :: "string \<Rightarrow> string \<Rightarrow> bool" where
  "HasPrefix s p = (take (length p) s = p)"

definition TrimPrefix :: "string \<Rightarrow> string \<Rightarrow> string" where
  "TrimPrefix s p = (if HasPrefix s p then drop (length p) s else s)"

fun Contains :: "string \<Rightarrow> string \<Rightarrow> bool" where
  "Contains [] sub = (sub = [])"
| "Contains (c # cs) sub = (HasPrefix (c # cs) sub \<or> Contains cs sub)"

definition lower_char :: "char \<Rightarrow> char" where
  "lower_char c =
     (if CHR ''A'' \<le> c \<and> c \<le> CHR ''Z'' then char_of (of_char c + (32::nat)) else c)"

text \<open>
  \<open>strings.ToLower\<close> on ASCII text; bytes outside \<open>A..Z\<close> are left as they are (the
  library also maps upper-case letters beyond ASCII, which the model does not cover).
\<close>

definition ToLower :: "string \<Rightarrow> string" where
  "ToLower s = map lower_char s"

text \<open>Splitting a path at every separator, and joining elements with the separator.\<close>

fun split_sep :: "string \<Rightarrow> string list" where
  "split_sep [] = [[]]"
| "split_sep (c # cs) =
     (if c = CHR ''/'' then [] # split_sep cs
      else (case split_sep cs of [] \<Rightarrow> [[c]] | x # xs \<Rightarrow> (c # x) # xs))"

fun join_sep :: "string list \<Rightarrow> string" where
  "join_sep [] = []"
| "join_sep [x] = x"
| "join_sep (x # y # ys) = x @ CHR ''/'' # join_sep (y # ys)"

text \<open>
  \<open>filepath.Clean\<close>: empty and \<open>.\<close> elements are dropped, an inner \<open>..\<close> removes the
  element before it, a \<open>..\<close> at the start of a rooted path is dropped and at the start
  of a relative path is kept. The accumulator holds the elements kept so far, last first.
\<close>

fun clean_elems :: "bool \<Rightarrow> string list \<Rightarrow> string list \<Rightarrow> string list" where
  "clean_elems rooted acc [] = rev acc"
| "clean_elems rooted acc (c # cs) =
     (if c = [] \<or> c = ''.'' then clean_elems rooted acc cs
      else if c = ''..'' then
        (case acc of
           [] \<Rightarrow> if rooted then clean_elems rooted [] cs else clean_elems rooted [''..''] cs
         | a # as \<Rightarrow>
             if a = ''..'' then clean_elems rooted (''..'' # acc) cs
             else clean_elems rooted as cs)
      else clean_elems rooted (c # acc) cs)"

definition is_rooted :: "string \<Rightarrow> bool" where
  "is_rooted p = (case p of [] \<Rightarrow> False | c # _ \<Rightarrow> c = CHR ''/'')"

definition Clean :: "string \<Rightarrow> string" where
  "Clean p =
     (if p = [] then ''.''
      else let es = clean_elems (is_rooted p) [] (split_sep p) in
        if is_rooted p then CHR ''/'' # join_sep es
        else if es = [] then ''.'' else join_sep es)"

text \<open>\<open>filepath.Join\<close>: empty elements are ignored, the rest is joined and cleaned.\<close>

definition Join :: "string list \<Rightarrow> string" where
  "Join elems =
     (let es = filter (\<lambda>e. e \<noteq> []) elems in if es = [] then [] else Clean (join_sep es))"

text \<open>
  A path lies inside the shared root when it is the root or continues it after a
  separator. This is the containment the server is meant to guarantee; the handlers
  themselves test \<open>HasPrefix fsPath rootDir\<close>.
\<close>

definition inside_root :: "string \<Rightarrow> string \<Rightarrow> bool" where
  "inside_root root p =
     (p = root \<or> (if root = ''/'' then is_rooted p else HasPrefix p (root @ ''/'')))"

section \<open>Requests, responses and the filesystem\<close>

text \<open>
  A request carries what the handlers read from \<open>*http.Request\<close>: the method, the URL
  path, the URL as a string, the query values, the form values (as \<open>FormValue\<close> sees
  them after parsing), the cookies, the Basic-Auth credentials, and the multipart part of
  an upload. A list of pairs is read like Go's \<open>Get\<close>: the first value of the key, or the
  empty string.
\<close>

record FileHeader =
  Filename :: string
  fh_data :: string
  fh_opens :: bool
  fh_copies :: bool

record Request =
  Method :: string
  URL_Path :: string
  URL_String :: string
  URL_Query :: "(string \<times> string) list"
  Form :: "(string \<times> string) list"
  Cookies :: "(string \<times> string) list"
  BasicAuth :: "(string \<times> string) option"
  MultipartOK :: bool
  MultipartFiles :: "FileHeader list"

definition Get :: "(string \<times> string) list \<Rightarrow> string \<Rightarrow> string" where
  "Get kvs k = (case map_of kvs k of None \<Rightarrow> [] | Some v \<Rightarrow> v)"

definition FormValue :: "Request \<Rightarrow> string \<Rightarrow> string" where
  "FormValue r k = Get (Form r) k"

record Cookie =
  cName :: string
  cValue :: string
  cPath :: string
  cHttpOnly :: bool
  cMaxAge :: int

record os_FileInfo =
  fi_Name :: string
  fi_Size :: "64 word"
  fi_ModTime :: nat
  fi_IsDir :: bool

datatype StatResult = StatOK os_FileInfo | NotExist | StatError

text \<open>
  The tree that \<open>filepath.Walk\<close> sees below a directory. A \<open>DirNode\<close> lists its children
  in the order the walk visits them (the library sorts the names). \<open>BadFile\<close> is a file
  that \<open>os.Open\<close> cannot open; \<open>BadNode\<close> is an entry whose \<open>Lstat\<close> fails or a directory
  that cannot be read.
\<close>

datatype fsnode =
    FileNode string string
  | BadFile string
  | BadNode string
  | DirNode string "fsnode list"

fun node_name :: "fsnode \<Rightarrow> string" where
  "node_name (FileNode n c) = n"
| "node_name (BadFile n) = n"
| "node_name (BadNode n) = n"
| "node_name (DirNode n cs) = n"

text \<open>
  The filesystem the handlers run against: what \<open>os.Stat\<close> and \<open>os.ReadDir\<close> return for
  a path (an entry of a directory is \<open>None\<close> when its \<open>Info()\<close> fails), what \<open>os.Open\<close>
  reads, the tree a walk from a path sees, and whether \<open>os.MkdirAll\<close> and \<open>os.Create\<close>
  succeed there.
\<close>

record filesys =
  os_Stat :: "string \<Rightarrow> StatResult"
  os_ReadDir :: "string \<Rightarrow> os_FileInfo option list option"
  os_Open :: "string \<Rightarrow> string option"
  os_Tree :: "string \<Rightarrow> fsnode"
  os_MkdirAll_ok :: "string \<Rightarrow> bool"
  os_Create_ok :: "string \<Rightarrow> bool"

text \<open>
  Every handler returns its response together with the filesystem operations it
  attempted, in order. \<open>apply_ops\<close> gives the regular files on disk after them.
\<close>

datatype fs_op =
    OpStat string
  | OpReadDir string
  | OpOpen string
  | OpWalk string
  | OpMkdirAll string
  | OpCreate string bool
  | OpWrite string string
  | OpRemove string

fun apply_op :: "(string \<rightharpoonup> string) \<Rightarrow> fs_op \<Rightarrow> (string \<rightharpoonup> string)" where
  "apply_op disk (OpCreate p ok) = (if ok then disk(p \<mapsto> []) else disk)"
| "apply_op disk (OpWrite p bs) = disk(p \<mapsto> bs)"
| "apply_op disk (OpRemove p) = disk(p := None)"
| "apply_op disk _ = disk"

definition apply_ops :: "(string \<rightharpoonup> string) \<Rightarrow> fs_op list \<Rightarrow> (string \<rightharpoonup> string)" where
  "apply_ops disk ops = foldl apply_op disk ops"

fun op_path :: "fs_op \<Rightarrow> string" where
  "op_path (OpStat p) = p"
| "op_path (OpReadDir p) = p"
| "op_path (OpOpen p) = p"
| "op_path (OpWalk p) = p"
| "op_path (OpMkdirAll p) = p"
| "op_path (OpCreate p ok) = p"
| "op_path (OpWrite p bs) = p"
| "op_path (OpRemove p) = p"

record FileInfo =
  Name :: string
  Path :: string
  Size :: "64 word"
  ModTime :: nat
  IsDir :: bool
  SizeStr :: string

record APIFileItem =
  api_Name :: string
  api_Path :: string
  api_Size :: "64 word"
  api_IsDir :: bool
  api_ModTime :: nat
  api_DownloadCount :: int

record PageData =
  Title :: string
  CurrentPath :: string
  ParentPath :: string
  Files :: "FileInfo list"
  HasParent :: bool
  ServerURL :: string

record APIPageData =
  api_Title :: string
  api_CurrentPath :: string
  api_ParentPath :: string
  api_Files :: "APIFileItem list"
  api_HasParent :: bool
  api_ServerURL :: string

datatype ZipEntry = ZipEntry (ze_name: string) (ze_data: string)

text \<open>
  The body of a response says what was written: a plain text message, the JSON of the
  auth probe, the login page (with the value of its hidden \<open>redirect\<close> field and its error
  message), the rendered listing, the JSON listing, a file's bytes, the entries of a zip
  stream and whether the walk completed, a file of the frontend bundle, or the link that
  a redirect of a GET request carries. CORS and
  Content-Type headers, the icon and the QR code of the HTML page are left out.
\<close>

datatype Body =
    NoBody
  | Text string
  | AuthJSON bool
  | LoginPage string string
  | HTMLPage PageData
  | JSONPage APIPageData
  | FileBody string
  | ZipBody "ZipEntry list" bool
  | Bundle string
  | RedirectLink string

record Response =
  Status :: nat
  Location :: "string option"
  SetCookie :: "Cookie option"
  ContentDisposition :: "string option"
  Content :: Body

type_synonym Handler = "Request \<Rightarrow> Response \<times> fs_op list"

definition respond :: "nat \<Rightarrow> Body \<Rightarrow> Response" where
  "respond code b =
     \<lparr>Status = code, Location = None, SetCookie = None, ContentDisposition = None,
      Content = b\<rparr>"

definition http_Error :: "string \<Rightarrow> nat \<Rightarrow> Response" where
  "http_Error msg code = respond code (Text msg)"

definition http_NotFound :: Response where
  "http_NotFound = http_Error ''404 page not found'' 404"

text \<open>
  \<open>http.Redirect\<close> sets the Location header from the target it is given. The library
  first parses the target with \<open>url.Parse\<close>; when that succeeds and finds neither a
  scheme nor a host, the target is made absolute against the directory of the request
  path, its part before the query is cleaned (a trailing separator is kept) and the query
  is put back. Any other target is left as it is. Bytes outside ASCII are written as
  \<open>%\<close> and two hexadecimal digits. \<open>local_target\<close> follows \<open>url.Parse\<close> as far as it
  decides that question: the fragment is cut off, control bytes are refused, a scheme is
  letters, digits, \<open>+\<close>, \<open>-\<close> and \<open>.\<close> after a letter and before a colon, the first
  segment of a relative path holds no colon, two leading separators (not three) start an
  authority whose host is what follows its last \<open>@\<close>, and the path and the fragment hold
  only complete percent escapes.
\<close>

definition is_ctl :: "char \<Rightarrow> bool" where
  "is_ctl c = (of_char c < (32::nat) \<or> of_char c = (127::nat))"

definition is_alpha :: "char \<Rightarrow> bool" where
  "is_alpha c = ((CHR ''a'' \<le> c \<and> c \<le> CHR ''z'') \<or> (CHR ''A'' \<le> c \<and> c \<le> CHR ''Z''))"

definition is_digit :: "char \<Rightarrow> bool" where
  "is_digit c = (CHR ''0'' \<le> c \<and> c \<le> CHR ''9'')"

definition is_hex :: "char \<Rightarrow> bool" where
  "is_hex c =
     (is_digit c \<or> (CHR ''a'' \<le> c \<and> c \<le> CHR ''f'') \<or> (CHR ''A'' \<le> c \<and> c \<le> CHR ''F''))"

definition before :: "char \<Rightarrow> string \<Rightarrow> string" where
  "before c s = takeWhile (\<lambda>x. x \<noteq> c) s"

definition after :: "char \<Rightarrow> string \<Rightarrow> string" where
  "after c s = drop 1 (dropWhile (\<lambda>x. x \<noteq> c) s)"

datatype scheme_result = NoScheme | HasScheme | SchemeError

fun getScheme :: "nat \<Rightarrow> string \<Rightarrow> scheme_result" where
  "getScheme i [] = NoScheme"
| "getScheme i (c # cs) =
     (if is_alpha c then getScheme (Suc i) cs
      else if is_digit c \<or> c = CHR ''+'' \<or> c = CHR ''-'' \<or> c = CHR ''.'' then
        (if i = 0 then NoScheme else getScheme (Suc i) cs)
      else if c = CHR '':'' then (if i = 0 then SchemeError else HasScheme)
      else NoScheme)"

fun escapes_ok :: "string \<Rightarrow> bool" where
  "escapes_ok [] = True"
| "escapes_ok (c # cs) =
     (if c = CHR ''%'' then
        (case cs of
           h1 # h2 # rest \<Rightarrow> is_hex h1 \<and> is_hex h2 \<and> escapes_ok rest
         | _ \<Rightarrow> False)
      else escapes_ok cs)"

definition validUserinfo :: "string \<Rightarrow> bool" where
  "validUserinfo s =
     list_all (\<lambda>c. is_alpha c \<or> is_digit c \<or> c \<in> set ''-._:~!$&'' \<or> c = CHR 0x27 \<or>
                    c \<in> set ''()*+,;=%@'') s"

definition userinfo_ok :: "string \<Rightarrow> bool" where
  "userinfo_ok s =
     (validUserinfo s \<and> escapes_ok (before CHR '':'' s) \<and> escapes_ok (after CHR '':'' s))"

definition authority_local :: "string \<Rightarrow> bool" where
  "authority_local authority =
     (if CHR ''@'' \<in> set authority
      then last authority = CHR ''@'' \<and> userinfo_ok (butlast authority)
      else authority = [])"

definition local_target :: "string \<Rightarrow> bool" where
  "local_target url =
     (let u = before CHR ''#'' url; frag = after CHR ''#'' url; rest = before CHR ''?'' u
      in \<not> list_ex is_ctl u \<and>
         (u = ''*'' \<or>
          (getScheme 0 u = NoScheme \<and>
           (is_rooted rest \<or> CHR '':'' \<notin> set (before CHR ''/'' rest)) \<and>
           (if HasPrefix rest ''//'' \<and> \<not> HasPrefix rest ''///''
            then authority_local (before CHR ''/'' (drop 2 rest)) \<and>
                 escapes_ok (dropWhile (\<lambda>x. x \<noteq> CHR ''/'') (drop 2 rest))
            else escapes_ok rest))) \<and>
         escapes_ok frag)"

definition HasSuffix :: "string \<Rightarrow> string \<Rightarrow> bool" where
  "HasSuffix s suffix = HasPrefix (rev s) (rev suffix)"

definition hex_digit :: "nat \<Rightarrow> char" where
  "hex_digit n = ''0123456789abcdef'' ! (n mod 16)"

definition hexEscapeNonASCII :: "string \<Rightarrow> string" where
  "hexEscapeNonASCII s =
     concat (map (\<lambda>c. if of_char c < (128::nat) then [c]
                        else [CHR ''%'', hex_digit (of_char c div 16), hex_digit (of_char c)]) s)"

definition clean_keep_slash :: "string \<Rightarrow> string" where
  "clean_keep_slash p =
     (if HasSuffix p ''/'' \<and> \<not> HasSuffix (Clean p) ''/'' then Clean p @ ''/'' else Clean p)"

definition redirect_location :: "string \<Rightarrow> string \<Rightarrow> string" where
  "redirect_location requestPath url =
     (if local_target url then
        (let oldpath = (if requestPath = [] then ''/'' else requestPath);
             olddir = rev (dropWhile (\<lambda>x. x \<noteq> CHR ''/'') (rev oldpath));
             url = (if url = [] \<or> \<not> is_rooted url then olddir @ url else url)
         in hexEscapeNonASCII
              (clean_keep_slash (before CHR ''?'' url) @ dropWhile (\<lambda>x. x \<noteq> CHR ''?'') url))
      else hexEscapeNonASCII url)"

definition http_Redirect :: "Request \<Rightarrow> string \<Rightarrow> nat \<Rightarrow> Response" where
  "http_Redirect r url code =
     \<lparr>Status = code, Location = Some (redirect_location (URL_Path r) url), SetCookie = None,
      ContentDisposition = None,
      Content = (if Method r = ''GET'' then RedirectLink (redirect_location (URL_Path r) url)
                 else NoBody)\<rparr>"

section \<open>The Auth Gate\<close>

definition showLoginForm :: "Request \<Rightarrow> string \<Rightarrow> Response" where
  "showLoginForm r errorMsg = respond 401 (LoginPage (URL_String r) errorMsg)"

definition session_cookie :: Cookie where
  "session_cookie =
     \<lparr>cName = ''auth_session'', cValue = ''authenticated'', cPath = ''/'',
      cHttpOnly = True, cMaxAge = 86400\<rparr>"

definition has_session :: "Request \<Rightarrow> bool" where
  "has_session r = (map_of (Cookies r) ''auth_session'' = Some ''authenticated'')"

definition basic_ok :: "Request \<Rightarrow> string \<Rightarrow> bool" where
  "basic_ok r password =
     (case BasicAuth r of None \<Rightarrow> False | Some (user, pass) \<Rightarrow> pass = password)"

definition applyAuthMiddleware :: "Handler \<Rightarrow> string \<Rightarrow> Handler" where
  "applyAuthMiddleware h password =
     (if password = [] then h
      else (\<lambda>r.
        if Method r = ''POST'' \<and> URL_Path r = ''/login'' then
          (if FormValue r ''password'' = password then
             (let redirectTo = FormValue r ''redirect'';
                  redirectTo = (if redirectTo = [] then ''/'' else redirectTo)
              in ((http_Redirect r redirectTo 303)\<lparr>SetCookie := Some session_cookie\<rparr>, []))
           else (showLoginForm r ''Invalid password. Please try again.'', []))
        else if has_session r then h r
        else if basic_ok r password then h r
        else (showLoginForm r [], [])))"

section \<open>Directory listings\<close>

text \<open>\<open>fmt\<close>'s \<open>%d\<close>: the decimal digits of an integer.\<close>

definition digit_char :: "nat \<Rightarrow> char" where
  "digit_char d = char_of (48 + d)"

fun digits10 :: "nat \<Rightarrow> string" where
  "digits10 n = (if n < 10 then [digit_char n] else digits10 (n div 10) @ [digit_char (n mod 10)])"

declare digits10.simps [simp del]

definition fmt_d :: "int \<Rightarrow> string" where
  "fmt_d i = (if i < 0 then CHR ''-'' # digits10 (nat (- i)) else digits10 (nat i))"

text \<open>
  \<open>float64(size)\<close> for a non-negative integer: exact up to 53 bits, above that rounded to
  the nearest value with 53 significant bits, ties to even. Dividing by a power of two
  is exact, and \<open>%.1f\<close> prints the nearest tenth of the exact quotient, ties to even:
  \<open>fmt_1f a b\<close> is \<open>%.1f\<close> of \<open>a / b\<close>.
\<close>

fun bitlen :: "nat \<Rightarrow> nat" where
  "bitlen n = (if n = 0 then 0 else Suc (bitlen (n div 2)))"

declare bitlen.simps [simp del]

definition round_half_even :: "nat \<Rightarrow> nat \<Rightarrow> nat" where
  "round_half_even a b =
     (let q = a div b; r = a mod b
      in if b < 2 * r \<or> (2 * r = b \<and> odd q) then q + 1 else q)"

definition float64 :: "nat \<Rightarrow> nat" where
  "float64 n =
     (if bitlen n \<le> 53 then n
      else round_half_even n (2 ^ (bitlen n - 53)) * 2 ^ (bitlen n - 53))"

definition fmt_1f :: "nat \<Rightarrow> nat \<Rightarrow> string" where
  "fmt_1f a b =
     (let t = round_half_even (10 * a) b
      in digits10 (t div 10) @ ''.'' @ [digit_char (t mod 10)])"

text \<open>
  The loop of \<open>formatFileSize\<close>: \<open>for n := size / unit; n >= unit; n /= unit\<close>. It runs
  on mathematical integers; \<open>size_loop_in_range\<close> below shows that for a 64-bit size the
  divisor stays far below \<open>2 ^ 63\<close> and the exponent below 6, so nothing wraps and the
  index into \<open>KMGTPE\<close> is in range.
\<close>

function size_loop :: "int \<Rightarrow> int \<Rightarrow> nat \<Rightarrow> int \<times> nat" where
  "size_loop n dv ex =
     (if 1024 \<le> n then size_loop (n div 1024) (dv * 1024) (Suc ex) else (dv, ex))"
  by pat_completeness auto
termination
  by (relation "measure (\<lambda>(n, dv, ex). nat n)") auto

declare size_loop.simps [simp del]

definition formatFileSize :: "64 word \<Rightarrow> bool \<Rightarrow> string" where
  "formatFileSize sz isDir =
     (if isDir then ''-''
      else if sint sz < 1024 then fmt_d (sint sz) @ '' B''
      else (case size_loop (sint sz div 1024) 1024 0 of
              (dv, ex) \<Rightarrow>
                fmt_1f (float64 (nat (sint sz))) (nat dv) @ '' '' @ [''KMGTPE'' ! ex] @ ''B''))"

text \<open>
  \<open>sort.Slice\<close> with a \<open>less\<close> function. The library sorts a slice of up to twelve
  elements by insertion: each element moves left while it is less than its left
  neighbour. The model is that insertion sort (the sorted part is held last element
  first). On longer slices the library's quicksort returns a permutation ordered by the
  same \<open>less\<close>, where elements that \<open>less\<close> does not tell apart may come in another order.
\<close>

fun insert_left :: "('a \<Rightarrow> 'a \<Rightarrow> bool) \<Rightarrow> 'a \<Rightarrow> 'a list \<Rightarrow> 'a list" where
  "insert_left lt x [] = [x]"
| "insert_left lt x (y # ys) =
     (if lt x y then y # insert_left lt x ys else x # y # ys)"

definition sort_Slice :: "('a \<Rightarrow> 'a \<Rightarrow> bool) \<Rightarrow> 'a list \<Rightarrow> 'a list" where
  "sort_Slice lt xs = rev (foldl (\<lambda>acc x. insert_left lt x acc) [] xs)"

text \<open>\<open>filepath.Dir\<close>: everything up to the last separator, cleaned.\<close>

definition Dir :: "string \<Rightarrow> string" where
  "Dir p = Clean (rev (dropWhile (\<lambda>c. c \<noteq> CHR ''/'') (rev p)))"

definition html_less :: "FileInfo \<Rightarrow> FileInfo \<Rightarrow> bool" where
  "html_less a b =
     (if IsDir a \<noteq> IsDir b then IsDir a else ToLower (Name a) < ToLower (Name b))"

definition api_less :: "APIFileItem \<Rightarrow> APIFileItem \<Rightarrow> bool" where
  "api_less a b =
     (if api_IsDir a \<noteq> api_IsDir b then api_IsDir a else api_Name a < api_Name b)"

text \<open>The entries of a directory whose \<open>Info()\<close> succeeds; the others are skipped.\<close>

fun infos :: "os_FileInfo option list \<Rightarrow> os_FileInfo list" where
  "infos [] = []"
| "infos (None # es) = infos es"
| "infos (Some i # es) = i # infos es"

definition html_item :: "string \<Rightarrow> os_FileInfo \<Rightarrow> FileInfo" where
  "html_item urlPath info =
     \<lparr>Name = fi_Name info, Path = Join [urlPath, fi_Name info], Size = fi_Size info,
      ModTime = fi_ModTime info, IsDir = fi_IsDir info,
      SizeStr = formatFileSize (fi_Size info) (fi_IsDir info)\<rparr>"

definition html_files :: "string \<Rightarrow> os_FileInfo option list \<Rightarrow> FileInfo list" where
  "html_files urlPath entries = sort_Slice html_less (map (html_item urlPath) (infos entries))"

record FileHandler =
  rootDir :: string
  serverURL :: string
  password :: string

definition serveDirectory ::
  "filesys \<Rightarrow> FileHandler \<Rightarrow> Request \<Rightarrow> string \<Rightarrow> string \<Rightarrow> Response \<times> fs_op list" where
  "serveDirectory env fh r fsPath urlPath =
     (case os_ReadDir env fsPath of
        None \<Rightarrow> (http_Error ''Could not read directory'' 500, [OpReadDir fsPath])
      | Some entries \<Rightarrow>
          (let hasParent = (urlPath \<noteq> ''/'' \<and> urlPath \<noteq> []);
               parentPath =
                 (if hasParent then (if Dir urlPath = ''.'' then ''/'' else Dir urlPath)
                  else [])
           in (respond 200 (HTMLPage
                 \<lparr>Title = ''GoShare - File Browser'', CurrentPath = urlPath,
                  ParentPath = parentPath, Files = html_files urlPath entries,
                  HasParent = hasParent, ServerURL = serverURL fh\<rparr>),
               [OpReadDir fsPath])))"

definition serveFile ::
  "filesys \<Rightarrow> FileHandler \<Rightarrow> Request \<Rightarrow> string \<Rightarrow> os_FileInfo \<Rightarrow> Response \<times> fs_op list" where
  "serveFile env fh r fsPath stat =
     (case os_Open env fsPath of
        None \<Rightarrow> (http_Error ''Could not open file'' 500, [OpOpen fsPath])
      | Some bs \<Rightarrow>
          ((respond 200 (FileBody bs))
             \<lparr>ContentDisposition :=
                (if Get (URL_Query r) ''download'' = ''1''
                 then Some (''attachment; filename='' @ [CHR 0x22] @ fi_Name stat @ [CHR 0x22])
                 else None)\<rparr>,
           [OpOpen fsPath]))"

definition api_item :: "string \<Rightarrow> os_FileInfo \<Rightarrow> APIFileItem" where
  "api_item cleanPath info =
     (let filePath = Join [cleanPath, fi_Name info];
          filePath = (if \<not> HasPrefix filePath ''/'' then ''/'' @ filePath else filePath)
      in \<lparr>api_Name = fi_Name info, api_Path = filePath, api_Size = fi_Size info,
          api_IsDir = fi_IsDir info, api_ModTime = fi_ModTime info,
          api_DownloadCount = 0\<rparr>)"

definition api_files :: "string \<Rightarrow> os_FileInfo option list \<Rightarrow> APIFileItem list" where
  "api_files cleanPath entries =
     sort_Slice api_less
       (map (api_item cleanPath)
          (filter (\<lambda>info. \<not> HasPrefix (fi_Name info) ''.'') (infos entries)))"

text \<open>
  The three steps shared by the handlers: the request path is cleaned (\<open>.\<close> becomes the
  root), joined onto the shared root without its leading separator, and the result is
  tested for the root as a string prefix.
\<close>

definition clean_request :: "string \<Rightarrow> string" where
  "clean_request requestPath =
     (let cleanPath = Clean requestPath in if cleanPath = ''.'' then ''/'' else cleanPath)"

definition resolve :: "string \<Rightarrow> string \<Rightarrow> string" where
  "resolve root cleanPath = Join [root, TrimPrefix cleanPath ''/'']"

definition handleAPIFiles :: "filesys \<Rightarrow> FileHandler \<Rightarrow> Request \<Rightarrow> Response \<times> fs_op list" where
  "handleAPIFiles env fh r =
     (let requestPath = Get (URL_Query r) ''path'';
          requestPath = (if requestPath = [] then ''/'' else requestPath);
          cleanPath = clean_request requestPath;
          fsPath = resolve (rootDir fh) cleanPath
      in if \<not> HasPrefix fsPath (rootDir fh) then (http_Error ''Access denied'' 403, [])
         else (case os_Stat env fsPath of
                 NotExist \<Rightarrow> (http_NotFound, [OpStat fsPath])
               | StatError \<Rightarrow> (http_Error ''Internal server error'' 500, [OpStat fsPath])
               | StatOK stat \<Rightarrow>
                   if \<not> fi_IsDir stat
                   then (http_Error ''Path is not a directory'' 400, [OpStat fsPath])
                   else (case os_ReadDir env fsPath of
                           None \<Rightarrow> (http_Error ''Cannot read directory'' 500,
                                     [OpStat fsPath, OpReadDir fsPath])
                         | Some entries \<Rightarrow>
                             (let hasParent = (cleanPath \<noteq> ''/'');
                                  parentPath =
                                    (if hasParent
                                     then (if Dir cleanPath = ''.'' then ''/'' else Dir cleanPath)
                                     else ''/'')
                              in (respond 200 (JSONPage
                                    \<lparr>api_Title = ''GoShare - File Browser'',
                                     api_CurrentPath = cleanPath, api_ParentPath = parentPath,
                                     api_Files = api_files cleanPath entries,
                                     api_HasParent = hasParent,
                                     api_ServerURL = serverURL fh\<rparr>),
                                  [OpStat fsPath, OpReadDir fsPath])))))"

definition handleAPI :: "filesys \<Rightarrow> FileHandler \<Rightarrow> Request \<Rightarrow> Response \<times> fs_op list" where
  "handleAPI env fh r =
     (let path = TrimPrefix (URL_Path r) ''/api''
      in if path = ''/files'' \<or> HasPrefix path ''/files/'' then handleAPIFiles env fh r
         else if path = ''/auth/check'' then (respond 200 (AuthJSON True), [])
         else (http_NotFound, []))"

section \<open>The Archive Streamer\<close>

text \<open>
  \<open>filepath.Rel\<close> on cleaned paths, element by element: the common leading elements are
  dropped, each element left of the base becomes \<open>..\<close>, and a base that still starts
  with \<open>..\<close> or that differs from the target in being rooted is an error. The walk calls
  it with absolute paths.
\<close>

definition path_elems :: "string \<Rightarrow> string list" where
  "path_elems p = filter (\<lambda>e. e \<noteq> []) (split_sep p)"

fun strip_common :: "string list \<Rightarrow> string list \<Rightarrow> string list \<times> string list" where
  "strip_common (b # bs) (t # ts) = (if b = t then strip_common bs ts else (b # bs, t # ts))"
| "strip_common bs ts = (bs, ts)"

definition Rel :: "string \<Rightarrow> string \<Rightarrow> string option" where
  "Rel basepath targpath =
     (let base = Clean basepath; targ = Clean targpath
      in if targ = base then Some ''.''
         else if is_rooted base \<noteq> is_rooted targ then None
         else (case strip_common (path_elems (if base = ''.'' then [] else base))
                                 (path_elems targ) of
                 ([], ts) \<Rightarrow> Some (join_sep ts)
               | (b # bs, ts) \<Rightarrow>
                   if b = ''..'' then None
                   else Some (join_sep (replicate (length (b # bs)) ''..'' @ ts))))"

text \<open>
  The walk function of \<open>serveDirectoryAsZip\<close>, for one visited path: the root itself is
  skipped, a directory becomes an entry named by its relative path and a separator, a
  file becomes an entry with its bytes. The result is the entries created and whether
  the walk goes on. For a file that cannot be opened the entry has been created already
  when the walk stops.
\<close>

datatype visited = VDir | VFile "string option"

definition zip_visit :: "string \<Rightarrow> string \<Rightarrow> visited \<Rightarrow> ZipEntry list \<times> bool" where
  "zip_visit fsPath path v =
     (if path = fsPath then ([], True)
      else (case Rel fsPath path of
              None \<Rightarrow> ([], False)
            | Some relPath \<Rightarrow>
                (case v of
                   VDir \<Rightarrow> ([ZipEntry (relPath @ ''/'') []], True)
                 | VFile None \<Rightarrow> ([ZipEntry relPath []], False)
                 | VFile (Some bs) \<Rightarrow> ([ZipEntry relPath bs], True))))"

text \<open>
  \<open>filepath.Walk\<close>: a directory is visited before its children, each child at the path
  joined from the directory's path and the child's name, and the first error stops the
  walk.
\<close>

fun walk :: "string \<Rightarrow> string \<Rightarrow> fsnode \<Rightarrow> ZipEntry list \<times> bool"
  and walk_children :: "string \<Rightarrow> string \<Rightarrow> fsnode list \<Rightarrow> ZipEntry list \<times> bool" where
  "walk fsPath path (FileNode n bs) = zip_visit fsPath path (VFile (Some bs))"
| "walk fsPath path (BadFile n) = zip_visit fsPath path (VFile None)"
| "walk fsPath path (BadNode n) = ([], False)"
| "walk fsPath path (DirNode n cs) =
     (case zip_visit fsPath path VDir of
        (es, False) \<Rightarrow> (es, False)
      | (es, True) \<Rightarrow>
          (case walk_children fsPath path cs of (es', ok) \<Rightarrow> (es @ es', ok)))"
| "walk_children fsPath path [] = ([], True)"
| "walk_children fsPath path (c # cs) =
     (case walk fsPath (Join [path, node_name c]) c of
        (es, False) \<Rightarrow> (es, False)
      | (es, True) \<Rightarrow>
          (case walk_children fsPath path cs of (es', ok) \<Rightarrow> (es @ es', ok)))"

definition serveDirectoryAsZip ::
  "filesys \<Rightarrow> FileHandler \<Rightarrow> Request \<Rightarrow> string \<Rightarrow> string \<Rightarrow> Response \<times> fs_op list" where
  "serveDirectoryAsZip env fh r fsPath dirName =
     (case walk fsPath fsPath (os_Tree env fsPath) of
        (es, ok) \<Rightarrow>
          ((respond 200 (ZipBody es ok))
             \<lparr>ContentDisposition :=
                Some (''attachment; filename='' @ [CHR 0x22] @ dirName @ ''.zip'' @ [CHR 0x22])\<rparr>,
           [OpWalk fsPath]))"

text \<open>
  What the specification asks of the archive, for a tree that can be read: a file is one
  entry named by its path relative to the walked root, with the file's bytes; a directory
  is one entry named by its relative path and a separator, with no content, followed by
  the entries of its children. The relative path is held as the list of names from the
  root down. \<open>well_formed\<close> says that every node can be read and has a name a directory
  entry can have.
\<close>

definition valid_name :: "string \<Rightarrow> bool" where
  "valid_name n = (n \<noteq> [] \<and> n \<noteq> ''.'' \<and> n \<noteq> ''..'' \<and> CHR ''/'' \<notin> set n)"

fun well_formed :: "fsnode \<Rightarrow> bool"
  and well_formed_list :: "fsnode list \<Rightarrow> bool" where
  "well_formed (FileNode n bs) = valid_name n"
| "well_formed (BadFile n) = False"
| "well_formed (BadNode n) = False"
| "well_formed (DirNode n cs) = (valid_name n \<and> well_formed_list cs)"
| "well_formed_list [] = True"
| "well_formed_list (c # cs) = (well_formed c \<and> well_formed_list cs)"

fun spec_entries :: "string list \<Rightarrow> fsnode \<Rightarrow> ZipEntry list"
  and spec_children :: "string list \<Rightarrow> fsnode list \<Rightarrow> ZipEntry list" where
  "spec_entries rel (FileNode n bs) = [ZipEntry (join_sep rel) bs]"
| "spec_entries rel (BadFile n) = []"
| "spec_entries rel (BadNode n) = []"
| "spec_entries rel (DirNode n cs) = ZipEntry (join_sep rel @ ''/'') [] # spec_children rel cs"
| "spec_children rel [] = []"
| "spec_children rel (c # cs) = spec_entries (rel @ [node_name c]) c @ spec_children rel cs"

text \<open>The absolute path made of a list of names.\<close>

definition abs_path :: "string list \<Rightarrow> string" where
  "abs_path es = CHR ''/'' # join_sep es"

section \<open>Uploads\<close>

text \<open>
  The loop over the uploaded files. \<open>fh_opens\<close> says whether \<open>fileHeader.Open()\<close>
  succeeds and \<open>fh_copies\<close> whether \<open>io.Copy\<close> does; a failed copy is followed by
  \<open>os.Remove\<close>. The result is \<open>uploadedCount\<close> and the operations attempted.
\<close>

fun upload_loop :: "filesys \<Rightarrow> string \<Rightarrow> FileHeader list \<Rightarrow> nat \<Rightarrow> nat \<times> fs_op list" where
  "upload_loop env fsDir [] uploadedCount = (uploadedCount, [])"
| "upload_loop env fsDir (f # fs) uploadedCount =
     (let destPath = Join [fsDir, Filename f]
      in if \<not> fh_opens f then upload_loop env fsDir fs uploadedCount
         else if \<not> os_Create_ok env destPath then
           (case upload_loop env fsDir fs uploadedCount of
              (n, ops) \<Rightarrow> (n, OpCreate destPath False # ops))
         else if \<not> fh_copies f then
           (case upload_loop env fsDir fs uploadedCount of
              (n, ops) \<Rightarrow> (n, OpCreate destPath True # OpRemove destPath # ops))
         else
           (case upload_loop env fsDir fs (Suc uploadedCount) of
              (n, ops) \<Rightarrow> (n, OpCreate destPath True # OpWrite destPath (fh_data f) # ops)))"

text \<open>
  What the loop does with one file taken alone: whether it is saved, and the operations
  it causes. \<open>upload_loop_closed\<close> below shows the loop is these, file after file.
\<close>

definition file_saved :: "filesys \<Rightarrow> string \<Rightarrow> FileHeader \<Rightarrow> bool" where
  "file_saved env fsDir f =
     (fh_opens f \<and> os_Create_ok env (Join [fsDir, Filename f]) \<and> fh_copies f)"

definition file_ops :: "filesys \<Rightarrow> string \<Rightarrow> FileHeader \<Rightarrow> fs_op list" where
  "file_ops env fsDir f =
     (let destPath = Join [fsDir, Filename f]
      in if \<not> fh_opens f then []
         else if \<not> os_Create_ok env destPath then [OpCreate destPath False]
         else if \<not> fh_copies f then [OpCreate destPath True, OpRemove destPath]
         else [OpCreate destPath True, OpWrite destPath (fh_data f)])"

definition upload_redirect :: "string \<Rightarrow> nat \<Rightarrow> string" where
  "upload_redirect cleanDir uploadedCount =
     (if 0 < uploadedCount then
        (if Contains cleanDir ''?'' then cleanDir @ ''&uploaded='' @ fmt_d (int uploadedCount)
         else cleanDir @ ''?uploaded='' @ fmt_d (int uploadedCount))
      else cleanDir)"

definition handleUpload :: "filesys \<Rightarrow> FileHandler \<Rightarrow> Request \<Rightarrow> Response \<times> fs_op list" where
  "handleUpload env fh r =
     (if \<not> MultipartOK r then (http_Error ''Unable to parse form'' 400, [])
      else
        (let targetDir = FormValue r ''directory'';
             targetDir = (if targetDir = [] then ''/'' else targetDir);
             cleanDir = clean_request targetDir;
             fsDir = resolve (rootDir fh) cleanDir
         in if \<not> HasPrefix fsDir (rootDir fh) then (http_Error ''Access denied'' 403, [])
            else if \<not> os_MkdirAll_ok env fsDir
            then (http_Error ''Unable to create directory'' 500, [OpMkdirAll fsDir])
            else (case upload_loop env fsDir (MultipartFiles r) 0 of
                    (uploadedCount, ops) \<Rightarrow>
                      (http_Redirect r (upload_redirect cleanDir uploadedCount) 303,
                       OpMkdirAll fsDir # ops))))"

section \<open>The Request Router\<close>

definition auth_probe :: "FileHandler \<Rightarrow> Request \<Rightarrow> bool" where
  "auth_probe fh r =
     (if password fh = [] then True
      else if has_session r then True
      else basic_ok r (password fh))"

definition ServeHTTP :: "filesys \<Rightarrow> FileHandler \<Rightarrow> Request \<Rightarrow> Response \<times> fs_op list" where
  "ServeHTTP env fh r =
     (if Method r = ''OPTIONS'' then (respond 200 NoBody, [])
      else if URL_Path r = ''/api/auth/check'' then (respond 200 (AuthJSON (auth_probe fh r)), [])
      else if HasPrefix (URL_Path r) ''/api/'' then handleAPI env fh r
      else if Method r = ''POST'' \<and> URL_Path r = ''/upload'' then handleUpload env fh r
      else
        (let requestPath = (if URL_Path r = [] \<or> URL_Path r = ''/'' then ''/'' else URL_Path r);
             cleanPath = clean_request requestPath;
             fsPath = resolve (rootDir fh) cleanPath
         in if \<not> HasPrefix fsPath (rootDir fh) then (http_Error ''Access denied'' 403, [])
            else (case os_Stat env fsPath of
                    NotExist \<Rightarrow> (http_NotFound, [OpStat fsPath])
                  | StatError \<Rightarrow> (http_Error ''Internal server error'' 500, [OpStat fsPath])
                  | StatOK stat \<Rightarrow>
                      (case (if fi_IsDir stat \<and> Get (URL_Query r) ''download'' = ''zip''
                             then serveDirectoryAsZip env fh r fsPath (fi_Name stat)
                             else if \<not> fi_IsDir stat then serveFile env fh r fsPath stat
                             else serveDirectory env fh r fsPath cleanPath) of
                         (resp, ops) \<Rightarrow> (resp, OpStat fsPath # ops)))))"

text \<open>
  The routes \<open>StartServer\<close> registers. With a frontend bundle under the shared root,
  \<open>/api/\<close> goes to the handler directly, \<open>/login\<close>, \<open>/upload\<close> and \<open>/files/\<close> go through
  the Auth Gate and everything else is answered from the bundle; without one, every
  request goes through the Auth Gate.
\<close>

definition mux :: "bool \<Rightarrow> filesys \<Rightarrow> FileHandler \<Rightarrow> Request \<Rightarrow> Response \<times> fs_op list" where
  "mux bundle env fh r =
     (let frontendPath = Join [rootDir fh, ''frontend'', ''build''];
          gated = applyAuthMiddleware (ServeHTTP env fh) (password fh)
      in if bundle then
           (if HasPrefix (URL_Path r) ''/api/'' then ServeHTTP env fh r
            else if URL_Path r = ''/login'' then gated r
            else if URL_Path r = ''/upload'' then gated r
            else if HasPrefix (URL_Path r) ''/files/'' then gated r
            else (if os_Stat env (Join [frontendPath, URL_Path r]) = NotExist \<and> URL_Path r \<noteq> ''/''
                  then (respond 200 (Bundle (Join [frontendPath, ''index.html''])),
                        [OpStat (Join [frontendPath, URL_Path r])])
                  else (respond 200 (Bundle (Join [frontendPath, URL_Path r])),
                        [OpStat (Join [frontendPath, URL_Path r])])))
         else gated r)"

definition StartServer :: "filesys \<Rightarrow> FileHandler \<Rightarrow> Request \<Rightarrow> Response \<times> fs_op list" where
  "StartServer env fh =
     mux (case os_Stat env (Join [rootDir fh, ''frontend'', ''build'']) of
            StatOK info \<Rightarrow> True | _ \<Rightarrow> False) env fh"

section \<open>Example inputs\<close>

text \<open>Concrete requests, a handler and filesystems on which the theorems are run.\<close>

definition request ::
  "string \<Rightarrow> string \<Rightarrow> (string \<times> string) list \<Rightarrow> (string \<times> string) list \<Rightarrow>
   (string \<times> string) list \<Rightarrow> (string \<times> string) option \<Rightarrow> Request" where
  "request m p q f c b =
     \<lparr>Method = m, URL_Path = p, URL_String = p, URL_Query = q, Form = f, Cookies = c,
      BasicAuth = b, MultipartOK = False, MultipartFiles = []\<rparr>"

definition ok_handler :: Handler where
  "ok_handler r = (respond 200 (Text ''ok''), [])"

text \<open>
  A filesystem in which the shared root \<open>/share\<close> has a sibling \<open>/share-evil\<close> holding
  one file, and a multipart upload with a \<open>directory\<close> field.
\<close>

definition sibling_fs :: filesys where
  "sibling_fs =
     \<lparr>os_Stat = (\<lambda>p. if p = ''/share-evil''
                     then StatOK \<lparr>fi_Name = ''share-evil'', fi_Size = 4096, fi_ModTime = 0,
                                  fi_IsDir = True\<rparr>
                     else NotExist),
      os_ReadDir = (\<lambda>p. if p = ''/share-evil''
                        then Some [Some \<lparr>fi_Name = ''secret.txt'', fi_Size = 5, fi_ModTime = 0,
                                         fi_IsDir = False\<rparr>]
                        else None),
      os_Open = (\<lambda>p. None),
      os_Tree = (\<lambda>p. DirNode [] []),
      os_MkdirAll_ok = (\<lambda>p. True),
      os_Create_ok = (\<lambda>p. True)\<rparr>"

definition upload_request :: "string \<Rightarrow> FileHeader list \<Rightarrow> Request" where
  "upload_request dir files =
     \<lparr>Method = ''POST'', URL_Path = ''/upload'', URL_String = ''/upload'', URL_Query = [],
      Form = [(''directory'', dir)], Cookies = [], BasicAuth = None, MultipartOK = True,
      MultipartFiles = files\<rparr>"

text \<open>
  An upload of four files: the first cannot be opened, the second cannot be created,
  the copy of the third fails, the fourth is saved.
\<close>

definition upload_fs :: filesys where
  "upload_fs = sibling_fs\<lparr>os_Create_ok := (\<lambda>p. p \<noteq> ''/share/locked'')\<rparr>"

definition upload_files :: "FileHeader list" where
  "upload_files =
     [\<lparr>Filename = ''a.txt'', fh_data = ''aa'', fh_opens = False, fh_copies = True\<rparr>,
      \<lparr>Filename = ''locked'', fh_data = ''bb'', fh_opens = True, fh_copies = True\<rparr>,
      \<lparr>Filename = ''c.bin'', fh_data = ''cc'', fh_opens = True, fh_copies = False\<rparr>,
      \<lparr>Filename = ''d.txt'', fh_data = ''data'', fh_opens = True, fh_copies = True\<rparr>]"

text \<open>
  A directory \<open>/share/docs\<close> holding the file \<open>a.txt\<close> and the empty directory \<open>sub\<close>,
  and a shared root \<open>/share\<close> holding the files \<open>.hidden\<close> and \<open>a.txt\<close>.
\<close>

definition docs_tree :: "fsnode list" where
  "docs_tree = [FileNode ''a.txt'' ''hello'', DirNode ''sub'' []]"

definition docs_fs :: filesys where
  "docs_fs =
     \<lparr>os_Stat = (\<lambda>p. if p = ''/share/docs''
                     then StatOK \<lparr>fi_Name = ''docs'', fi_Size = 4096, fi_ModTime = 0,
                                  fi_IsDir = True\<rparr>
                     else NotExist),
      os_ReadDir = (\<lambda>p. None),
      os_Open = (\<lambda>p. None),
      os_Tree = (\<lambda>p. DirNode ''docs'' docs_tree),
      os_MkdirAll_ok = (\<lambda>p. True),
      os_Create_ok = (\<lambda>p. True)\<rparr>"

definition listing_entries :: "os_FileInfo option list" where
  "listing_entries =
     [Some \<lparr>fi_Name = ''.hidden'', fi_Size = 3, fi_ModTime = 0, fi_IsDir = False\<rparr>,
      Some \<lparr>fi_Name = ''a.txt'', fi_Size = 5, fi_ModTime = 0, fi_IsDir = False\<rparr>]"

definition listing_fs :: filesys where
  "listing_fs =
     \<lparr>os_Stat = (\<lambda>p. if p = ''/share''
                     then StatOK \<lparr>fi_Name = ''share'', fi_Size = 4096, fi_ModTime = 0,
                                  fi_IsDir = True\<rparr>
                     else NotExist),
      os_ReadDir = (\<lambda>p. if p = ''/share'' then Some listing_entries else None),
      os_Open = (\<lambda>p. None),
      os_Tree = (\<lambda>p. DirNode [] []),
      os_MkdirAll_ok = (\<lambda>p. True),
      os_Create_ok = (\<lambda>p. True)\<rparr>"

definition share :: FileHandler where
  "share = \<lparr>rootDir = ''/share'', serverURL = [], password = []\<rparr>"

section \<open>Properties of the Auth Gate\<close>

text \<open>
  Claim C3. With no password the middleware is the handler itself. With a password, the
  requests are classified in the order of the code: a \<open>POST /login\<close> is a login attempt
  (the right password gives a 303 redirect and the cookie
  \<open>auth_session=authenticated; HttpOnly; Path=/; Max-Age=86400\<close>, a wrong one gives 401
  with the login page and no cookie); any other request passes to the handler when it
  bears the session cookie or a Basic-Auth password that matches, whatever the user name;
  and any other request without either gets 401 with the login page.
\<close>

theorem auth_gate:
  "applyAuthMiddleware h [] r = h r \<and>
   (pw \<noteq> [] \<and> \<not> (Method r = ''POST'' \<and> URL_Path r = ''/login'') \<and> \<not> has_session r
      \<and> \<not> basic_ok r pw \<longrightarrow>
      applyAuthMiddleware h pw r = (respond 401 (LoginPage (URL_String r) []), [])) \<and>
   (pw \<noteq> [] \<and> Method r = ''POST'' \<and> URL_Path r = ''/login'' \<and> FormValue r ''password'' = pw \<longrightarrow>
      Status (fst (applyAuthMiddleware h pw r)) = 303 \<and>
      Location (fst (applyAuthMiddleware h pw r)) \<noteq> None \<and>
      SetCookie (fst (applyAuthMiddleware h pw r)) =
        Some \<lparr>cName = ''auth_session'', cValue = ''authenticated'', cPath = ''/'',
              cHttpOnly = True, cMaxAge = 86400\<rparr>) \<and>
   (pw \<noteq> [] \<and> \<not> (Method r = ''POST'' \<and> URL_Path r = ''/login'')
      \<and> map_of (Cookies r) ''auth_session'' = Some ''authenticated'' \<longrightarrow>
      applyAuthMiddleware h pw r = h r) \<and>
   (pw \<noteq> [] \<and> \<not> (Method r = ''POST'' \<and> URL_Path r = ''/login'')
      \<and> BasicAuth r = Some (user, pw) \<longrightarrow>
      applyAuthMiddleware h pw r = h r) \<and>
   (pw \<noteq> [] \<and> Method r = ''POST'' \<and> URL_Path r = ''/login'' \<and> FormValue r ''password'' \<noteq> pw \<longrightarrow>
      Status (fst (applyAuthMiddleware h pw r)) = 401 \<and>
      SetCookie (fst (applyAuthMiddleware h pw r)) = None \<and>
      (\<exists>u e. Content (fst (applyAuthMiddleware h pw r)) = LoginPage u e) \<and>
      snd (applyAuthMiddleware h pw r) = [])"
  by (simp add: applyAuthMiddleware_def showLoginForm_def http_Redirect_def respond_def
      session_cookie_def has_session_def basic_ok_def Let_def)

theorem auth_gate_witness:
  "applyAuthMiddleware ok_handler [] (request ''GET'' ''/docs'' [] [] [] None)
     = (respond 200 (Text ''ok''), []) \<and>
   applyAuthMiddleware ok_handler ''secret'' (request ''GET'' ''/docs'' [] [] [] None)
     = (respond 401 (LoginPage ''/docs'' []), []) \<and>
   Status (fst (applyAuthMiddleware ok_handler ''secret''
      (request ''POST'' ''/login'' [] [(''password'', ''secret'')] [] None))) = 303 \<and>
   SetCookie (fst (applyAuthMiddleware ok_handler ''secret''
      (request ''POST'' ''/login'' [] [(''password'', ''secret'')] [] None)))
     = Some \<lparr>cName = ''auth_session'', cValue = ''authenticated'', cPath = ''/'',
             cHttpOnly = True, cMaxAge = 86400\<rparr> \<and>
   applyAuthMiddleware ok_handler ''secret''
      (request ''GET'' ''/docs'' [] [] [(''auth_session'', ''authenticated'')] None)
     = (respond 200 (Text ''ok''), []) \<and>
   applyAuthMiddleware ok_handler ''secret''
      (request ''GET'' ''/docs'' [] [] [] (Some (''anyone'', ''secret'')))
     = (respond 200 (Text ''ok''), []) \<and>
   Status (fst (applyAuthMiddleware ok_handler ''secret''
      (request ''POST'' ''/login'' [] [(''password'', ''guess'')] [] None))) = 401 \<and>
   SetCookie (fst (applyAuthMiddleware ok_handler ''secret''
      (request ''POST'' ''/login'' [] [(''password'', ''guess'')] [] None))) = None"
  using
    auth_gate [of ok_handler "request ''GET'' ''/docs'' [] [] [] None" "''secret''" "''u''"]
    auth_gate [of ok_handler "request ''POST'' ''/login'' [] [(''password'', ''secret'')] [] None"
      "''secret''" "''u''"]
    auth_gate [of ok_handler
      "request ''GET'' ''/docs'' [] [] [(''auth_session'', ''authenticated'')] None"
      "''secret''" "''u''"]
    auth_gate [of ok_handler "request ''GET'' ''/docs'' [] [] [] (Some (''anyone'', ''secret''))"
      "''secret''" "''anyone''"]
    auth_gate [of ok_handler "request ''POST'' ''/login'' [] [(''password'', ''guess'')] [] None"
      "''secret''" "''u''"]
  by (simp add: request_def ok_handler_def FormValue_def Get_def has_session_def basic_ok_def)

text \<open>
  Claim C10, as stated, fails: the Location header is not always the submitted
  \<open>redirect\<close> field. For the field \<open>docs\<close> the login answers with the Location
  \<open>/docs\<close>.
\<close>

theorem login_redirect_not_verbatim:
  "Location (fst (applyAuthMiddleware ok_handler ''secret''
      (request ''POST'' ''/login'' [] [(''password'', ''secret''), (''redirect'', ''docs'')]
         [] None))) = Some ''/docs'' \<and>
   Location (fst (applyAuthMiddleware ok_handler ''secret''
      (request ''POST'' ''/login'' [] [(''password'', ''secret''), (''redirect'', ''docs'')]
         [] None))) \<noteq> Some ''docs''"
  by code_simp

text \<open>
  Claim C10, amended. A \<open>POST /login\<close> with the configured password is answered by a
  303 redirect whose target is taken from the submitted \<open>redirect\<close> field, or \<open>/\<close> when
  the field is empty, and from nothing else of the request. A target that carries a
  scheme or a host, or that does not parse, is the Location as it stands (bytes outside
  ASCII escaped); any other target is made absolute against \<open>/\<close>, the directory of
  \<open>/login\<close>, and cleaned before its query.
\<close>

theorem login_redirect_location:
  assumes "pw \<noteq> []" and "Method r = ''POST''" and "URL_Path r = ''/login''"
    and "FormValue r ''password'' = pw"
    and "t = (if FormValue r ''redirect'' = [] then ''/'' else FormValue r ''redirect'')"
  shows "Status (fst (applyAuthMiddleware h pw r)) = 303 \<and>
         (\<not> local_target t \<longrightarrow>
            Location (fst (applyAuthMiddleware h pw r)) = Some (hexEscapeNonASCII t)) \<and>
         (local_target t \<longrightarrow>
            Location (fst (applyAuthMiddleware h pw r))
              = Some (hexEscapeNonASCII
                  (clean_keep_slash (before CHR ''?'' (if is_rooted t then t else ''/'' @ t)) @
                   dropWhile (\<lambda>x. x \<noteq> CHR ''?'') (if is_rooted t then t else ''/'' @ t))))"
proof -
  have t: "t \<noteq> []" using assms(5) by auto
  have "fst (applyAuthMiddleware h pw r) = (http_Redirect r t 303)\<lparr>SetCookie := Some session_cookie\<rparr>"
    using assms by (simp add: applyAuthMiddleware_def Let_def)
  then have "Status (fst (applyAuthMiddleware h pw r)) = 303"
    and "Location (fst (applyAuthMiddleware h pw r)) = Some (redirect_location ''/login'' t)"
    using assms(3) by (simp_all add: http_Redirect_def)
  then show ?thesis
    using t by (simp add: redirect_location_def Let_def)
qed

theorem login_redirect_location_witness:
  "Status (fst (applyAuthMiddleware ok_handler ''secret''
      (request ''POST'' ''/login'' []
         [(''password'', ''secret''), (''redirect'', ''http://elsewhere.example/x'')] [] None)))
     = 303 \<and>
   Location (fst (applyAuthMiddleware ok_handler ''secret''
      (request ''POST'' ''/login'' []
         [(''password'', ''secret''), (''redirect'', ''http://elsewhere.example/x'')] [] None)))
     = Some ''http://elsewhere.example/x'' \<and>
   Location (fst (applyAuthMiddleware ok_handler ''secret''
      (request ''POST'' ''/login'' []
         [(''password'', ''secret''), (''redirect'', ''/a/../b?next=1'')] [] None)))
     = Some ''/b?next=1'' \<and>
   Location (fst (applyAuthMiddleware ok_handler ''secret''
      (request ''POST'' ''/login'' [] [(''password'', ''secret'')] [] None)))
     = Some ''/''"
proof -
  have l1: "\<not> local_target ''http://elsewhere.example/x''"
    and e1: "hexEscapeNonASCII ''http://elsewhere.example/x'' = ''http://elsewhere.example/x''"
    and l2: "local_target ''/a/../b?next=1''"
    and e2: "hexEscapeNonASCII (clean_keep_slash (before CHR ''?'' ''/a/../b?next=1'') @
               dropWhile (\<lambda>x. x \<noteq> CHR ''?'') ''/a/../b?next=1'') = ''/b?next=1''"
    and l3: "local_target ''/''"
    and e3: "hexEscapeNonASCII (clean_keep_slash (before CHR ''?'' ''/'') @
               dropWhile (\<lambda>x. x \<noteq> CHR ''?'') ''/'') = ''/''"
    by code_simp+
  show ?thesis
    using
      login_redirect_location [of "''secret''"
        "request ''POST'' ''/login'' []
           [(''password'', ''secret''), (''redirect'', ''http://elsewhere.example/x'')] [] None"
        "''http://elsewhere.example/x''" ok_handler]
      login_redirect_location [of "''secret''"
        "request ''POST'' ''/login'' []
           [(''password'', ''secret''), (''redirect'', ''/a/../b?next=1'')] [] None"
        "''/a/../b?next=1''" ok_handler]
      login_redirect_location [of "''secret''"
        "request ''POST'' ''/login'' [] [(''password'', ''secret'')] [] None" "''/''" ok_handler]
      l1 e1 l2 e2 l3 e3
    by (simp add: request_def FormValue_def Get_def is_rooted_def)
qed

section \<open>The status probe\<close>

text \<open>
  With a frontend bundle the router hands \<open>/api/auth/check\<close> to the handler without the
  Auth Gate, and the answer is the JSON of the caller's auth state.
\<close>

lemma auth_check_with_bundle:
  "URL_Path r = ''/api/auth/check'' \<Longrightarrow> Method r \<noteq> ''OPTIONS'' \<Longrightarrow>
   mux True env fh r = (respond 200 (AuthJSON (auth_probe fh r)), [])"
  by (simp add: mux_def ServeHTTP_def HasPrefix_def Let_def)

text \<open>
  Claim C4. Without a frontend bundle every request goes through the Auth Gate: with the
  password \<open>secret\<close> configured, a \<open>GET /api/auth/check\<close> without credentials is answered
  by 401 and the login page, not by the JSON probe.
\<close>

theorem auth_check_behind_gate:
  "mux False env \<lparr>rootDir = ''/share'', serverURL = [], password = ''secret''\<rparr>
     (request ''GET'' ''/api/auth/check'' [] [] [] None)
   = (respond 401 (LoginPage ''/api/auth/check'' []), [])"
  by (simp add: mux_def applyAuthMiddleware_def showLoginForm_def has_session_def basic_ok_def
      request_def Let_def)

section \<open>Path containment\<close>

lemmas path_defs = clean_request_def resolve_def Join_def Clean_def is_rooted_def HasPrefix_def
  TrimPrefix_def Dir_def

text \<open>
  Claim C1. With the shared root \<open>/share\<close>, the listing API called with
  \<open>path=../share-evil\<close> resolves to the sibling \<open>/share-evil\<close>, which has the root as a
  string prefix: the handler stats and reads that directory, outside the root, and
  answers 200.
\<close>

theorem api_listing_escapes_root:
  "snd (ServeHTTP sibling_fs \<lparr>rootDir = ''/share'', serverURL = [], password = []\<rparr>
     (request ''GET'' ''/api/files'' [(''path'', ''../share-evil'')] [] [] None))
     = [OpStat ''/share-evil'', OpReadDir ''/share-evil''] \<and>
   Status (fst (ServeHTTP sibling_fs \<lparr>rootDir = ''/share'', serverURL = [], password = []\<rparr>
     (request ''GET'' ''/api/files'' [(''path'', ''../share-evil'')] [] [] None))) = 200 \<and>
   \<not> inside_root ''/share'' ''/share-evil''"
  by code_simp

text \<open>
  Claim C2. With the shared root \<open>/share\<close>, an upload whose \<open>directory\<close> field is
  \<open>../share-evil\<close> passes the prefix test: the file is created and written at
  \<open>/share-evil/a.txt\<close>, outside the root, and the request is answered by the redirect of a
  successful upload.
\<close>

theorem upload_escapes_root:
  "handleUpload sibling_fs \<lparr>rootDir = ''/share'', serverURL = [], password = []\<rparr>
     (upload_request ''../share-evil''
        [\<lparr>Filename = ''a.txt'', fh_data = ''hello'', fh_opens = True, fh_copies = True\<rparr>])
     = (http_Redirect
          (upload_request ''../share-evil''
             [\<lparr>Filename = ''a.txt'', fh_data = ''hello'', fh_opens = True, fh_copies = True\<rparr>])
          ''../share-evil?uploaded=1'' 303,
        [OpMkdirAll ''/share-evil'', OpCreate ''/share-evil/a.txt'' True,
         OpWrite ''/share-evil/a.txt'' ''hello'']) \<and>
   apply_ops Map.empty
     [OpMkdirAll ''/share-evil'', OpCreate ''/share-evil/a.txt'' True,
      OpWrite ''/share-evil/a.txt'' ''hello''] ''/share-evil/a.txt'' = Some ''hello'' \<and>
   \<not> inside_root ''/share'' ''/share-evil/a.txt''"
  by code_simp

section \<open>Listing order\<close>

text \<open>
  Claim C5. The JSON listing compares names as they are: of the two files \<open>a\<close> and \<open>B\<close>
  it puts \<open>B\<close> first, although \<open>a\<close> comes first when case is ignored.
\<close>

theorem api_listing_case_sensitive:
  "map api_Name (api_files ''/''
     [Some \<lparr>fi_Name = ''a'', fi_Size = 5, fi_ModTime = 0, fi_IsDir = False\<rparr>,
      Some \<lparr>fi_Name = ''B'', fi_Size = 5, fi_ModTime = 0, fi_IsDir = False\<rparr>])
     = [''B'', ''a''] \<and>
   ToLower ''a'' < ToLower ''B''"
  by code_simp

section \<open>Sorting keeps the entries\<close>

lemma mset_insert_left: "mset (insert_left lt x ys) = add_mset x (mset ys)"
  by (induction ys) auto

lemma mset_foldl_insert_left:
  "mset (foldl (\<lambda>acc x. insert_left lt x acc) acc xs) = mset acc + mset xs"
  by (induction xs arbitrary: acc) (auto simp: mset_insert_left)

lemma mset_sort_Slice: "mset (sort_Slice lt xs) = mset xs"
  by (simp add: sort_Slice_def mset_foldl_insert_left)

lemma set_sort_Slice: "set (sort_Slice lt xs) = set xs"
  using mset_sort_Slice [of lt xs] by (metis set_mset_mset)

lemma mset_map_sort_Slice: "mset (map f (sort_Slice lt xs)) = mset (map f xs)"
  by (simp add: mset_sort_Slice)

section \<open>Hidden files\<close>

text \<open>
  The names in the two listings built from the same directory entries: all of them in
  the HTML listing, those that do not begin with a dot in the JSON listing.
\<close>

lemma listing_names:
  "mset (map Name (html_files urlPath entries)) = mset (map fi_Name (infos entries)) \<and>
   mset (map api_Name (api_files cleanPath entries))
     = mset (filter (\<lambda>n. \<not> HasPrefix n ''.'') (map fi_Name (infos entries)))"
proof
  have eq: "map Name (map (html_item urlPath) (infos entries)) = map fi_Name (infos entries)"
    by (simp add: html_item_def)
  show "mset (map Name (html_files urlPath entries)) = mset (map fi_Name (infos entries))"
    unfolding html_files_def mset_map_sort_Slice by (rule arg_cong [OF eq])
next
  have eq: "map api_Name (map (api_item cleanPath)
          (filter (\<lambda>info. \<not> HasPrefix (fi_Name info) ''.'') (infos entries)))
        = filter (\<lambda>n. \<not> HasPrefix n ''.'') (map fi_Name (infos entries))"
    by (simp add: api_item_def Let_def filter_map comp_def)
  show "mset (map api_Name (api_files cleanPath entries))
     = mset (filter (\<lambda>n. \<not> HasPrefix n ''.'') (map fi_Name (infos entries)))"
    unfolding api_files_def mset_map_sort_Slice by (rule arg_cong [OF eq])
qed

lemma handleAPIFiles_listing:
  assumes "HasPrefix (resolve (rootDir fh) c) (rootDir fh)"
    and "os_Stat env (resolve (rootDir fh) c) = StatOK st" and "fi_IsDir st"
    and "os_ReadDir env (resolve (rootDir fh) c) = Some entries"
    and c: "c = clean_request (if Get (URL_Query q) ''path'' = [] then ''/''
                               else Get (URL_Query q) ''path'')"
  shows "\<exists>pg. handleAPIFiles env fh q
            = (respond 200 (JSONPage pg),
               [OpStat (resolve (rootDir fh) c), OpReadDir (resolve (rootDir fh) c)]) \<and>
          api_Files pg = api_files c entries"
  using assms(1-4) unfolding handleAPIFiles_def Let_def c [symmetric]
  by (simp add: respond_def)

text \<open>
  Claim C8. For a directory whose entries can be read, the page that \<open>serveDirectory\<close>
  answers with lists every entry, the names that begin with a dot among them, while the
  JSON page that \<open>handleAPIFiles\<close> answers with for the same directory lists exactly the
  entries whose names do not begin with a dot.
\<close>

theorem hidden_files:
  assumes "os_ReadDir env fsPath = Some entries"
  shows "(\<exists>pg. serveDirectory env fh r fsPath urlPath
              = (respond 200 (HTMLPage pg), [OpReadDir fsPath]) \<and>
            mset (map Name (Files pg)) = mset (map fi_Name (infos entries))) \<and>
         (fsPath = resolve (rootDir fh)
              (clean_request (if Get (URL_Query q) ''path'' = [] then ''/''
                              else Get (URL_Query q) ''path'')) \<and>
          HasPrefix fsPath (rootDir fh) \<and> os_Stat env fsPath = StatOK st \<and> fi_IsDir st \<longrightarrow>
            (\<exists>pg. handleAPIFiles env fh q
                = (respond 200 (JSONPage pg), [OpStat fsPath, OpReadDir fsPath]) \<and>
              mset (map api_Name (api_Files pg))
                = mset (filter (\<lambda>n. \<not> HasPrefix n ''.'') (map fi_Name (infos entries)))))"
proof (intro conjI impI)
  have "\<exists>pg. serveDirectory env fh r fsPath urlPath
              = (respond 200 (HTMLPage pg), [OpReadDir fsPath]) \<and>
            Files pg = html_files urlPath entries"
    using assms by (simp add: serveDirectory_def respond_def Let_def)
  then show "\<exists>pg. serveDirectory env fh r fsPath urlPath
              = (respond 200 (HTMLPage pg), [OpReadDir fsPath]) \<and>
            mset (map Name (Files pg)) = mset (map fi_Name (infos entries))"
    using listing_names [of urlPath entries] by auto
next
  assume h: "fsPath = resolve (rootDir fh)
              (clean_request (if Get (URL_Query q) ''path'' = [] then ''/''
                              else Get (URL_Query q) ''path'')) \<and>
          HasPrefix fsPath (rootDir fh) \<and> os_Stat env fsPath = StatOK st \<and> fi_IsDir st"
  define c where "c = clean_request (if Get (URL_Query q) ''path'' = [] then ''/''
                                     else Get (URL_Query q) ''path'')"
  from h have f: "fsPath = resolve (rootDir fh) c"
    and p: "HasPrefix fsPath (rootDir fh)"
    and s: "os_Stat env fsPath = StatOK st" and d: "fi_IsDir st"
    unfolding c_def by blast+
  have "\<exists>pg. handleAPIFiles env fh q
          = (respond 200 (JSONPage pg),
             [OpStat (resolve (rootDir fh) c), OpReadDir (resolve (rootDir fh) c)]) \<and>
        api_Files pg = api_files c entries"
    by (rule handleAPIFiles_listing [OF p [unfolded f] s [unfolded f] d assms [unfolded f] c_def])
  then obtain pg where pg: "handleAPIFiles env fh q
          = (respond 200 (JSONPage pg), [OpStat fsPath, OpReadDir fsPath])"
      "api_Files pg = api_files c entries"
    unfolding f by blast
  have "mset (map api_Name (api_Files pg))
          = mset (filter (\<lambda>n. \<not> HasPrefix n ''.'') (map fi_Name (infos entries)))"
    unfolding pg(2) using listing_names [of urlPath entries c] by (rule conjunct2)
  with pg(1) show "\<exists>pg. handleAPIFiles env fh q
                = (respond 200 (JSONPage pg), [OpStat fsPath, OpReadDir fsPath]) \<and>
              mset (map api_Name (api_Files pg))
                = mset (filter (\<lambda>n. \<not> HasPrefix n ''.'') (map fi_Name (infos entries)))"
    by blast
qed

theorem hidden_files_witness:
  "(\<exists>pg. serveDirectory listing_fs share (request ''GET'' ''/'' [] [] [] None) ''/share'' ''/''
           = (respond 200 (HTMLPage pg), [OpReadDir ''/share'']) \<and>
         mset (map Name (Files pg)) = mset [''.hidden'', ''a.txt'']) \<and>
   (\<exists>pg. handleAPIFiles listing_fs share
             (request ''GET'' ''/api/files'' [(''path'', ''/'')] [] [] None)
           = (respond 200 (JSONPage pg), [OpStat ''/share'', OpReadDir ''/share'']) \<and>
         mset (map api_Name (api_Files pg)) = mset [''a.txt''])"
proof -
  let ?q = "request ''GET'' ''/api/files'' [(''path'', ''/'')] [] [] None"
  let ?st = "\<lparr>fi_Name = ''share'', fi_Size = 4096, fi_ModTime = 0, fi_IsDir = True\<rparr>"
  have rd: "os_ReadDir listing_fs ''/share'' = Some listing_entries"
    by (simp add: listing_fs_def)
  have n1: "map fi_Name (infos listing_entries) = [''.hidden'', ''a.txt'']"
    by (simp add: listing_entries_def)
  have n2: "filter (\<lambda>n. \<not> HasPrefix n ''.'') (map fi_Name (infos listing_entries)) = [''a.txt'']"
    by (simp add: listing_entries_def HasPrefix_def)
  have h1: "''/share'' = resolve (rootDir share)
      (clean_request (if Get (URL_Query ?q) ''path'' = [] then ''/''
                      else Get (URL_Query ?q) ''path''))"
    by code_simp
  have h2: "HasPrefix ''/share'' (rootDir share)" by code_simp
  have h3: "os_Stat listing_fs ''/share'' = StatOK ?st" by (simp add: listing_fs_def)
  have h4: "fi_IsDir ?st" by simp
  note th = hidden_files [OF rd, of share "request ''GET'' ''/'' [] [] [] None" "''/''" ?q ?st]
  from th have a: "\<exists>pg. serveDirectory listing_fs share (request ''GET'' ''/'' [] [] [] None)
           ''/share'' ''/'' = (respond 200 (HTMLPage pg), [OpReadDir ''/share'']) \<and>
         mset (map Name (Files pg)) = mset [''.hidden'', ''a.txt'']"
    unfolding n1 by (rule conjunct1)
  from th h1 h2 h3 h4 have b: "\<exists>pg. handleAPIFiles listing_fs share ?q
           = (respond 200 (JSONPage pg), [OpStat ''/share'', OpReadDir ''/share'']) \<and>
         mset (map api_Name (api_Files pg)) = mset [''a.txt'']"
    unfolding n2 by blast
  from a b show ?thesis by (rule conjI)
qed

section \<open>Partial failures of an upload\<close>

lemma upload_loop_closed:
  "upload_loop env fsDir files n
     = (n + length (filter (file_saved env fsDir) files), concat (map (file_ops env fsDir) files))"
  by (induction files arbitrary: n) (auto simp: file_saved_def file_ops_def Let_def)

lemma handleUpload_accepted:
  assumes "MultipartOK r"
    and "cleanDir = clean_request (if FormValue r ''directory'' = [] then ''/''
                                   else FormValue r ''directory'')"
    and "HasPrefix (resolve (rootDir fh) cleanDir) (rootDir fh)"
    and "os_MkdirAll_ok env (resolve (rootDir fh) cleanDir)"
  shows "handleUpload env fh r
      = (http_Redirect r
           (upload_redirect cleanDir
              (length (filter (file_saved env (resolve (rootDir fh) cleanDir))
                 (MultipartFiles r)))) 303,
         OpMkdirAll (resolve (rootDir fh) cleanDir) #
           concat (map (file_ops env (resolve (rootDir fh) cleanDir)) (MultipartFiles r)))"
proof (cases "FormValue r ''directory'' = []")
  case True
  with assms show ?thesis
    by (simp add: handleUpload_def Let_def upload_loop_closed)
next
  case False
  with assms show ?thesis
    by (simp add: handleUpload_def Let_def upload_loop_closed)
qed

text \<open>
  Claim C9. The loop handles each uploaded file on its own: a file that cannot be
  opened or created is skipped, a file whose copy fails is created and then removed,
  the others are written, and the count is the number of files saved, whatever happened
  to the files before. An accepted upload is answered by a redirect that carries only
  that count. Creating and removing a file leaves no file at its path.
\<close>

theorem upload_partial_failures:
  "upload_loop env fsDir files n
     = (n + length (filter (file_saved env fsDir) files),
        concat (map (file_ops env fsDir) files)) \<and>
   (MultipartOK r \<and>
    cleanDir = clean_request (if FormValue r ''directory'' = [] then ''/''
                              else FormValue r ''directory'') \<and>
    HasPrefix (resolve (rootDir fh) cleanDir) (rootDir fh) \<and>
    os_MkdirAll_ok env (resolve (rootDir fh) cleanDir) \<longrightarrow>
    handleUpload env fh r
      = (http_Redirect r
           (upload_redirect cleanDir
              (length (filter (file_saved env (resolve (rootDir fh) cleanDir))
                 (MultipartFiles r)))) 303,
         OpMkdirAll (resolve (rootDir fh) cleanDir) #
           concat (map (file_ops env (resolve (rootDir fh) cleanDir)) (MultipartFiles r)))) \<and>
   apply_ops disk [OpCreate p True, OpRemove p] p = None"
proof (intro conjI impI)
  show "upload_loop env fsDir files n
     = (n + length (filter (file_saved env fsDir) files),
        concat (map (file_ops env fsDir) files))"
    by (rule upload_loop_closed)
next
  assume "MultipartOK r \<and>
    cleanDir = clean_request (if FormValue r ''directory'' = [] then ''/''
                              else FormValue r ''directory'') \<and>
    HasPrefix (resolve (rootDir fh) cleanDir) (rootDir fh) \<and>
    os_MkdirAll_ok env (resolve (rootDir fh) cleanDir)"
  then show "handleUpload env fh r
      = (http_Redirect r
           (upload_redirect cleanDir
              (length (filter (file_saved env (resolve (rootDir fh) cleanDir))
                 (MultipartFiles r)))) 303,
         OpMkdirAll (resolve (rootDir fh) cleanDir) #
           concat (map (file_ops env (resolve (rootDir fh) cleanDir)) (MultipartFiles r)))"
    by (intro handleUpload_accepted) blast+
next
  show "apply_ops disk [OpCreate p True, OpRemove p] p = None"
    by (simp add: apply_ops_def)
qed

theorem upload_partial_failures_witness:
  "upload_loop upload_fs ''/share'' upload_files 0
     = (1, [OpCreate ''/share/locked'' False,
            OpCreate ''/share/c.bin'' True, OpRemove ''/share/c.bin'',
            OpCreate ''/share/d.txt'' True, OpWrite ''/share/d.txt'' ''data'']) \<and>
   fst (handleUpload upload_fs \<lparr>rootDir = ''/share'', serverURL = [], password = []\<rparr>
          (upload_request ''/'' upload_files))
     = http_Redirect (upload_request ''/'' upload_files) ''/?uploaded=1'' 303"
  using upload_partial_failures [of upload_fs "''/share''" upload_files 0
      "upload_request ''/'' upload_files" "''/''"
      "\<lparr>rootDir = ''/share'', serverURL = [], password = []\<rparr>" Map.empty "''/share/c.bin''"]
  by (simp add: upload_fs_def sibling_fs_def upload_files_def upload_request_def file_saved_def
      file_ops_def FormValue_def Get_def path_defs upload_redirect_def fmt_d_def digit_char_def
      digits10.simps char_of_def bit_0 Let_def)

section \<open>Size formatting\<close>

text \<open>
  The loop multiplies the divisor by 1024 once for each further division: it returns
  the divisor times \<open>1024 ^ j\<close> for the first \<open>j\<close> at which the quotient is below 1024.
\<close>

lemma size_loop_closed:
  "0 \<le> n \<Longrightarrow>
   \<exists>j. size_loop n dv ex = (dv * 1024 ^ j, ex + j) \<and> n div 1024 ^ j < 1024 \<and>
       (j = 0 \<or> 1024 ^ j \<le> n)"
proof (induction n dv ex rule: size_loop.induct)
  case (1 n dv ex)
  show ?case
  proof (cases "1024 \<le> n")
    case False
    then have "size_loop n dv ex = (dv * 1024 ^ 0, ex + 0)"
      by (simp add: size_loop.simps)
    moreover have "n div 1024 ^ 0 < 1024" using False by simp
    ultimately show ?thesis by blast
  next
    case True
    with "1.prems" have "0 \<le> n div 1024" by simp
    from "1.IH" [OF True this] obtain j where
      j: "size_loop (n div 1024) (dv * 1024) (Suc ex) = (dv * 1024 * 1024 ^ j, Suc ex + j)"
        "n div 1024 div 1024 ^ j < 1024" "j = 0 \<or> 1024 ^ j \<le> n div 1024"
      by blast
    have "size_loop n dv ex = (dv * 1024 ^ Suc j, ex + Suc j)"
      using True j(1) by (subst size_loop.simps) simp
    moreover have "n div 1024 ^ Suc j < 1024"
      using j(2) by (simp add: zdiv_zmult2_eq)
    moreover have "(1024::int) ^ Suc j \<le> n"
    proof -
      have "1 \<le> n div 1024" using True by simp
      with j(3) have "(1024::int) ^ j \<le> n div 1024" by auto
      then have "1024 * (1024::int) ^ j \<le> 1024 * (n div 1024)" by simp
      also have "\<dots> \<le> n" by simp
      finally show ?thesis by simp
    qed
    ultimately show ?thesis by blast
  qed
qed

lemma size_loop_in_range:
  assumes "1024 \<le> sint (sz :: 64 word)"
  shows "\<exists>k<6. size_loop (sint sz div 1024) 1024 0 = (1024 ^ Suc k, k) \<and>
           1024 ^ Suc k \<le> sint sz \<and> sint sz div 1024 ^ Suc k < 1024"
proof -
  let ?s = "sint sz"
  have lt: "?s < 2 ^ 63" using sint_lt [of sz] by simp
  have "0 \<le> ?s div 1024" using assms by simp
  from size_loop_closed [OF this, of 1024 0] obtain j where
    j: "size_loop (?s div 1024) 1024 0 = (1024 * 1024 ^ j, 0 + j)"
      "?s div 1024 div 1024 ^ j < 1024" "j = 0 \<or> 1024 ^ j \<le> ?s div 1024"
    by blast
  have "1 \<le> ?s div 1024" using assms by simp
  with j(3) have le: "(1024::int) ^ j \<le> ?s div 1024" by auto
  have "j < 6"
  proof (rule ccontr)
    assume "\<not> j < 6"
    then have "(1024::int) ^ 6 \<le> 1024 ^ j" by (intro power_increasing) auto
    with le have "(1024::int) ^ 6 \<le> ?s div 1024" by linarith
    moreover have "?s div 1024 < 2 ^ 53" using lt by simp
    ultimately show False by simp
  qed
  moreover have "(1024::int) ^ Suc j \<le> ?s"
  proof -
    from le have "1024 * (1024::int) ^ j \<le> 1024 * (?s div 1024)" by simp
    also have "\<dots> \<le> ?s" by simp
    finally show ?thesis by simp
  qed
  moreover have "?s div 1024 ^ Suc j < 1024"
    using j(2) by (simp add: zdiv_zmult2_eq)
  ultimately show ?thesis using j(1) by auto
qed

lemma round_half_even_nearest:
  assumes "0 < b"
  shows "2 * (round_half_even a b * b) \<le> 2 * a + b \<and>
         2 * a \<le> 2 * (round_half_even a b * b) + b"
proof -
  define q where "q = a div b"
  define r where "r = a mod b"
  have a: "a = q * b + r" by (simp add: q_def r_def)
  have m: "r < b" using assms by (simp add: r_def)
  have "round_half_even a b = (if b < 2 * r \<or> (2 * r = b \<and> odd q) then q + 1 else q)"
    by (simp add: round_half_even_def Let_def q_def r_def)
  then show ?thesis using m by (auto simp: a algebra_simps)
qed

text \<open>Below \<open>2 ^ 53\<close> the conversion to \<open>float64\<close> is exact.\<close>

lemma bitlen_le: "n < 2 ^ k \<Longrightarrow> bitlen n \<le> k"
proof (induction k arbitrary: n)
  case 0
  then show ?case by (simp add: bitlen.simps)
next
  case (Suc k)
  show ?case
  proof (cases "n = 0")
    case True
    then show ?thesis by (simp add: bitlen.simps)
  next
    case False
    from Suc.prems have "n div 2 < 2 ^ k" by simp
    from Suc.IH [OF this] show ?thesis using False by (subst bitlen.simps) simp
  qed
qed

lemma float64_exact: "n < 2 ^ 53 \<Longrightarrow> float64 n = n"
  by (simp add: float64_def bitlen_le)

lemmas digit_simps = digits10.simps digit_char_def char_of_def bit_0

lemmas format_simps = formatFileSize_def fmt_d_def float64_exact fmt_1f_def round_half_even_def
  digit_simps Let_def

lemma size_loop_1: "size_loop 1 1024 0 = (1024, 0)"
  by code_simp

lemma size_loop_1024: "size_loop 1024 1024 0 = (1048576, 1)"
  by code_simp

lemma dir_size_placeholder:
  "f \<in> set (html_files urlPath entries) \<Longrightarrow> IsDir f \<Longrightarrow> SizeStr f = ''-''"
  by (auto simp: html_files_def set_sort_Slice html_item_def formatFileSize_def)

text \<open>
  Claim C7. A size from 0 to 1023 is printed as its decimal digits and \<open>B\<close>. A size of
  at least 1024 is divided by \<open>1024 ^ (k + 1)\<close> for the one \<open>k\<close> below 6 that leaves an integer
  quotient from 1 to 1023, printed with one decimal (the nearest tenth of the quotient of
  \<open>float64(size)\<close>) and the \<open>k\<close>-th letter of \<open>KMGTPE\<close> before \<open>B\<close>. A directory is printed
  as \<open>-\<close>, so is every directory of an HTML listing. The four sizes of the specification
  print as it says.
\<close>

theorem size_formatting:
  "(0 \<le> sint sz \<and> sint sz < 1024 \<longrightarrow>
      formatFileSize sz False = digits10 (nat (sint sz)) @ '' B'') \<and>
   (1024 \<le> sint sz \<longrightarrow>
      (\<exists>k<6. 1024 ^ Suc k \<le> sint sz \<and> sint sz div 1024 ^ Suc k < 1024 \<and>
         formatFileSize sz False
           = fmt_1f (float64 (nat (sint sz))) (1024 ^ Suc k) @ '' '' @ [''KMGTPE'' ! k] @ ''B'')) \<and>
   formatFileSize sz True = ''-'' \<and>
   (\<forall>f \<in> set (html_files urlPath entries). IsDir f \<longrightarrow> SizeStr f = ''-'') \<and>
   formatFileSize 0 False = ''0 B'' \<and>
   formatFileSize 1023 False = ''1023 B'' \<and>
   formatFileSize 1024 False = ''1.0 KB'' \<and>
   formatFileSize 1048576 False = ''1.0 MB''"
proof (intro conjI impI ballI)
  assume "0 \<le> sint sz \<and> sint sz < 1024"
  then show "formatFileSize sz False = digits10 (nat (sint sz)) @ '' B''"
    by (simp add: formatFileSize_def fmt_d_def)
next
  assume big: "1024 \<le> sint sz"
  from size_loop_in_range [OF big] obtain k where
    k: "k < 6" "size_loop (sint sz div 1024) 1024 0 = (1024 ^ Suc k, k)"
      "1024 ^ Suc k \<le> sint sz" "sint sz div 1024 ^ Suc k < 1024"
    by blast
  have "nat ((1024::int) ^ Suc k) = 1024 ^ Suc k"
    by (simp add: nat_power_eq nat_mult_distrib)
  with big k(2) have "formatFileSize sz False
      = fmt_1f (float64 (nat (sint sz))) (1024 ^ Suc k) @ '' '' @ [''KMGTPE'' ! k] @ ''B''"
    by (simp add: formatFileSize_def)
  with k show "\<exists>k<6. 1024 ^ Suc k \<le> sint sz \<and> sint sz div 1024 ^ Suc k < 1024 \<and>
         formatFileSize sz False
           = fmt_1f (float64 (nat (sint sz))) (1024 ^ Suc k) @ '' '' @ [''KMGTPE'' ! k] @ ''B''"
    by blast
next
  show "formatFileSize sz True = ''-''" by (simp add: formatFileSize_def)
next
  fix f assume "f \<in> set (html_files urlPath entries)" "IsDir f"
  then show "SizeStr f = ''-''" by (rule dir_size_placeholder)
next
  show "formatFileSize 0 False = ''0 B''" by (simp add: format_simps)
  show "formatFileSize 1023 False = ''1023 B''" by (simp add: format_simps)
  show "formatFileSize 1024 False = ''1.0 KB''" by (simp add: format_simps size_loop_1)
  show "formatFileSize 1048576 False = ''1.0 MB''" by (simp add: format_simps size_loop_1024)
qed

theorem size_formatting_witness:
  "sint (512 :: 64 word) = 512 \<and> formatFileSize 512 False = ''512 B'' \<and>
   sint (1536 :: 64 word) = 1536 \<and> formatFileSize 1536 False = ''1.5 KB'' \<and>
   (\<exists>k<6. (1024::int) ^ Suc k \<le> 1536 \<and> (1536::int) div 1024 ^ Suc k < 1024 \<and>
      ''1.5 KB'' = fmt_1f (float64 (nat 1536)) (1024 ^ Suc k) @ '' '' @ [''KMGTPE'' ! k] @ ''B'') \<and>
   map SizeStr (html_files ''/''
      [Some \<lparr>fi_Name = ''sub'', fi_Size = 4096, fi_ModTime = 0, fi_IsDir = True\<rparr>]) = [''-'']"
proof -
  have s1: "sint (512 :: 64 word) = 512" and s2: "sint (1536 :: 64 word) = 1536"
    by simp_all
  have f1: "formatFileSize 512 False = ''512 B''" by (simp add: format_simps)
  have f2: "formatFileSize 1536 False = ''1.5 KB''" by (simp add: format_simps size_loop_1)
  have d: "map SizeStr (html_files ''/''
      [Some \<lparr>fi_Name = ''sub'', fi_Size = 4096, fi_ModTime = 0, fi_IsDir = True\<rparr>]) = [''-'']"
    by (simp add: html_files_def html_item_def sort_Slice_def formatFileSize_def)
  have big: "1024 \<le> sint (1536 :: 64 word)" unfolding s2 by simp
  have "\<exists>k<6. 1024 ^ Suc k \<le> sint (1536 :: 64 word) \<and>
      sint (1536 :: 64 word) div 1024 ^ Suc k < 1024 \<and>
      formatFileSize 1536 False
        = fmt_1f (float64 (nat (sint (1536 :: 64 word)))) (1024 ^ Suc k) @ '' '' @
          [''KMGTPE'' ! k] @ ''B''"
    using size_formatting [of 1536 "[]" "[]"] big by blast
  then have ex: "\<exists>k<6. (1024::int) ^ Suc k \<le> 1536 \<and> (1536::int) div 1024 ^ Suc k < 1024 \<and>
      ''1.5 KB'' = fmt_1f (float64 (nat 1536)) (1024 ^ Suc k) @ '' '' @ [''KMGTPE'' ! k] @ ''B''"
    unfolding s2 f2 .
  from s1 f1 s2 f2 ex d show ?thesis by (intro conjI)
qed

section \<open>Clean absolute paths\<close>

text \<open>
  An absolute clean path is a separator followed by valid names joined by separators.
  On such paths \<open>Clean\<close> is the identity, \<open>Join\<close> with a valid name appends the name, and
  \<open>Rel\<close> returns the names below the base.
\<close>

lemma split_sep_not_Nil [simp]: "split_sep s \<noteq> []"
  by (induction s) (auto split: list.splits)

lemma split_sep_no_sep: "CHR ''/'' \<notin> set s \<Longrightarrow> split_sep s = [s]"
  by (induction s) auto

lemma split_sep_append: "split_sep (a @ CHR ''/'' # b) = split_sep a @ split_sep b"
proof (induction a)
  case Nil
  show ?case by simp
next
  case (Cons c a)
  obtain x xs where x: "split_sep a = x # xs"
    by (cases "split_sep a") auto
  with Cons show ?case by simp
qed

lemma split_sep_elems: "e \<in> set (split_sep s) \<Longrightarrow> CHR ''/'' \<notin> set e"
proof (induction s arbitrary: e)
  case Nil
  then show ?case by simp
next
  case (Cons c s)
  then show ?case by (cases "split_sep s") (auto split: if_splits)
qed

lemma split_sep_join_sep:
  "es \<noteq> [] \<Longrightarrow> \<forall>e \<in> set es. CHR ''/'' \<notin> set e \<Longrightarrow> split_sep (join_sep es) = es"
proof (induction es rule: join_sep.induct)
  case 1
  then show ?case by simp
next
  case (2 x)
  then show ?case by (simp add: split_sep_no_sep)
next
  case (3 x y ys)
  then show ?case by (simp add: split_sep_append split_sep_no_sep)
qed

lemma join_sep_snoc: "es \<noteq> [] \<Longrightarrow> join_sep (es @ [n]) = join_sep es @ CHR ''/'' # n"
  by (induction es rule: join_sep.induct) auto

lemma clean_elems_valid:
  "\<forall>e \<in> set es. valid_name e \<Longrightarrow> clean_elems rooted acc es = rev acc @ es"
  by (induction es arbitrary: acc) (auto simp: valid_name_def)

lemma valid_no_sep: "\<forall>e \<in> set es. valid_name e \<Longrightarrow> \<forall>e \<in> set es. CHR ''/'' \<notin> set e"
  by (simp add: valid_name_def)

lemma split_sep_abs_path:
  "\<forall>e \<in> set es. valid_name e \<Longrightarrow>
   split_sep (abs_path es) = (if es = [] then [[], []] else [] # es)"
  by (simp add: abs_path_def split_sep_join_sep valid_no_sep)

lemma Clean_abs_path: "\<forall>e \<in> set es. valid_name e \<Longrightarrow> Clean (abs_path es) = abs_path es"
  by (simp add: Clean_def split_sep_abs_path clean_elems_valid)
     (simp add: abs_path_def is_rooted_def)

lemma path_elems_abs_path: "\<forall>e \<in> set es. valid_name e \<Longrightarrow> path_elems (abs_path es) = es"
  by (auto simp: path_elems_def split_sep_abs_path valid_name_def filter_id_conv)

lemma abs_path_inject:
  "\<forall>e \<in> set es. valid_name e \<Longrightarrow> \<forall>e \<in> set fs. valid_name e \<Longrightarrow>
   abs_path es = abs_path fs \<Longrightarrow> es = fs"
  by (metis path_elems_abs_path)

lemma Join_abs_path:
  assumes "\<forall>e \<in> set es. valid_name e" and "valid_name n"
  shows "Join [abs_path es, n] = abs_path (es @ [n])"
proof (cases "es = []")
  case True
  have "split_sep (CHR ''/'' # CHR ''/'' # n) = [[], [], n]"
    using assms(2) by (simp add: split_sep_no_sep valid_name_def)
  then show ?thesis
    using True assms(2)
    by (simp add: Join_def abs_path_def Clean_def is_rooted_def valid_name_def)
next
  case False
  have v: "\<forall>e \<in> set (es @ [n]). valid_name e" using assms by simp
  have "join_sep [abs_path es, n] = abs_path (es @ [n])"
    using False by (simp add: abs_path_def join_sep_snoc)
  moreover have "abs_path es \<noteq> []" "n \<noteq> []"
    using assms(2) by (simp_all add: abs_path_def valid_name_def)
  ultimately show ?thesis
    using Clean_abs_path [OF v] by (simp add: Join_def)
qed

lemma strip_common_Nil: "strip_common [] ts = ([], ts)"
  by (cases ts) simp_all

lemma strip_common_append: "strip_common bs (bs @ ts) = ([], ts)"
  by (induction bs) (simp_all add: strip_common_Nil)

lemma Rel_abs_path:
  assumes "\<forall>e \<in> set bs. valid_name e" and "\<forall>e \<in> set ts. valid_name e" and "ts \<noteq> []"
  shows "Rel (abs_path bs) (abs_path (bs @ ts)) = Some (join_sep ts)"
proof -
  have v: "\<forall>e \<in> set (bs @ ts). valid_name e" using assms by auto
  have ne: "abs_path (bs @ ts) \<noteq> abs_path bs"
    using abs_path_inject [OF v assms(1)] assms(3) by auto
  have r: "is_rooted (abs_path bs)" "is_rooted (abs_path (bs @ ts))" "abs_path bs \<noteq> ''.''"
    by (simp_all add: abs_path_def is_rooted_def)
  show ?thesis
    using ne r
    by (simp add: Rel_def Clean_abs_path [OF v] Clean_abs_path [OF assms(1)]
        path_elems_abs_path [OF v] path_elems_abs_path [OF assms(1)] strip_common_append)
qed

lemma clean_elems_rooted_valid:
  "\<forall>x \<in> set xs. CHR ''/'' \<notin> set x \<Longrightarrow> \<forall>a \<in> set acc. valid_name a \<Longrightarrow>
   \<forall>e \<in> set (clean_elems True acc xs). valid_name e"
proof (induction xs arbitrary: acc)
  case Nil
  then show ?case by simp
next
  case (Cons x xs)
  have xs: "\<forall>x \<in> set xs. CHR ''/'' \<notin> set x" and x: "CHR ''/'' \<notin> set x"
    using Cons.prems(1) by simp_all
  note IH = Cons.IH [OF xs]
  note acc = Cons.prems(2)
  show ?case
  proof (cases "x = [] \<or> x = ''.''")
    case True
    then have eq: "clean_elems True acc (x # xs) = clean_elems True acc xs"
      by auto
    show ?thesis unfolding eq by (rule IH [OF acc])
  next
    case False
    note nx = this
    show ?thesis
    proof (cases "x = ''..''")
      case True
      note dd = this
      show ?thesis
      proof (cases acc)
        case Nil
        have eq: "clean_elems True acc (x # xs) = clean_elems True [] xs"
          using dd Nil by simp
        show ?thesis unfolding eq by (rule IH) simp
      next
        case (Cons a as)
        with acc have "a \<noteq> ''..''" "\<forall>a \<in> set as. valid_name a"
          by (auto simp: valid_name_def)
        then have v: "\<forall>a \<in> set as. valid_name a" and na: "a \<noteq> ''..''" by simp_all
        have eq: "clean_elems True acc (x # xs) = clean_elems True as xs"
          using dd Cons na by simp
        show ?thesis unfolding eq by (rule IH [OF v])
      qed
    next
      case False
      with nx x acc have v: "\<forall>a \<in> set (x # acc). valid_name a"
        by (simp add: valid_name_def)
      have eq: "clean_elems True acc (x # xs) = clean_elems True (x # acc) xs"
        using nx False by simp
      show ?thesis unfolding eq by (rule IH [OF v])
    qed
  qed
qed

lemma Clean_rooted_form:
  assumes "is_rooted p"
  shows "\<exists>es. (\<forall>e \<in> set es. valid_name e) \<and> Clean p = abs_path es"
proof -
  from assms have "p \<noteq> []" by (auto simp: is_rooted_def)
  with assms have "Clean p = abs_path (clean_elems True [] (split_sep p))"
    by (simp add: Clean_def abs_path_def)
  moreover have "\<forall>e \<in> set (clean_elems True [] (split_sep p)). valid_name e"
    by (rule clean_elems_rooted_valid) (auto dest: split_sep_elems)
  ultimately show ?thesis by blast
qed

section \<open>The archive of a directory\<close>

lemma zip_visit_below:
  assumes "\<forall>e \<in> set bs. valid_name e" and "\<forall>e \<in> set rs. valid_name e" and "rs \<noteq> []"
  shows "zip_visit (abs_path bs) (abs_path (bs @ rs)) v =
     (case v of
        VDir \<Rightarrow> ([ZipEntry (join_sep rs @ ''/'') []], True)
      | VFile None \<Rightarrow> ([ZipEntry (join_sep rs) []], False)
      | VFile (Some b) \<Rightarrow> ([ZipEntry (join_sep rs) b], True))"
proof -
  have v: "\<forall>e \<in> set (bs @ rs). valid_name e" using assms by auto
  have "abs_path (bs @ rs) \<noteq> abs_path bs"
    using abs_path_inject [OF v assms(1)] assms(3) by auto
  then show ?thesis
    by (simp add: zip_visit_def Rel_abs_path [OF assms])
qed

lemma well_formed_name: "well_formed c \<Longrightarrow> valid_name (node_name c)"
  by (cases c) simp_all

lemma walk_spec:
  assumes bs: "\<forall>e \<in> set bs. valid_name e"
  shows "well_formed c \<Longrightarrow> rs \<noteq> [] \<Longrightarrow> \<forall>e \<in> set rs. valid_name e \<Longrightarrow>
           walk (abs_path bs) (abs_path (bs @ rs)) c = (spec_entries rs c, True)"
    and "well_formed_list cs \<Longrightarrow> \<forall>e \<in> set rs. valid_name e \<Longrightarrow>
           walk_children (abs_path bs) (abs_path (bs @ rs)) cs = (spec_children rs cs, True)"
proof (induction c and cs arbitrary: rs and rs rule: well_formed_well_formed_list.induct)
  case (1 n b)
  then show ?case by (simp add: zip_visit_below [OF bs])
next
  case (2 n)
  then show ?case by simp
next
  case (3 n)
  then show ?case by simp
next
  case (4 n cs)
  then show ?case by (simp add: zip_visit_below [OF bs])
next
  case 5
  show ?case by simp
next
  case (6 c cs)
  from "6.prems" have wf: "well_formed c" "well_formed_list cs" by simp_all
  have vn: "valid_name (node_name c)" using wf(1) by (rule well_formed_name)
  have v: "\<forall>e \<in> set (bs @ rs). valid_name e" using bs "6.prems"(2) by auto
  have j: "Join [abs_path (bs @ rs), node_name c] = abs_path (bs @ rs @ [node_name c])"
    using Join_abs_path [OF v vn] by simp
  have "walk (abs_path bs) (abs_path (bs @ rs @ [node_name c])) c
          = (spec_entries (rs @ [node_name c]) c, True)"
    using "6.IH"(1) [of "rs @ [node_name c]"] wf(1) vn "6.prems"(2) by simp
  moreover have "walk_children (abs_path bs) (abs_path (bs @ rs)) cs = (spec_children rs cs, True)"
    using "6.IH"(2) [of rs] wf "6.prems"(2) by simp
  ultimately show ?case by (simp add: j)
qed

lemma walk_root:
  assumes "is_rooted fsPath" and "Clean fsPath = fsPath" and "well_formed_list cs"
  shows "walk fsPath fsPath (DirNode n cs) = (spec_children [] cs, True)"
proof -
  from Clean_rooted_form [OF assms(1)] assms(2) obtain bs where
    bs: "\<forall>e \<in> set bs. valid_name e" "fsPath = abs_path bs"
    by auto
  have "walk_children fsPath fsPath cs = (spec_children [] cs, True)"
    using walk_spec(2) [OF bs(1), of cs "[]"] assms(3) bs(2) by simp
  then show ?thesis by (simp add: zip_visit_def)
qed

lemma resolve_clean_abs:
  assumes "is_rooted root"
  shows "is_rooted (resolve root c) \<and> Clean (resolve root c) = resolve root c"
proof -
  from assms obtain cs where root: "root = CHR ''/'' # cs"
    by (cases root) (auto simp: is_rooted_def)
  define p where "p = join_sep (filter (\<lambda>e. e \<noteq> []) [root, TrimPrefix c ''/''])"
  have rp: "is_rooted p"
    by (simp add: p_def root is_rooted_def)
  have r: "resolve root c = Clean p"
    by (simp add: resolve_def Join_def Let_def p_def root)
  from Clean_rooted_form [OF rp] obtain es where
    es: "\<forall>e \<in> set es. valid_name e" "Clean p = abs_path es"
    by blast
  have "is_rooted (abs_path es)" by (simp add: abs_path_def is_rooted_def)
  with es r show ?thesis by (simp add: Clean_abs_path)
qed

text \<open>
  Claim C6. A request for a directory below an absolute shared root with
  \<open>download=zip\<close>, when the tree below the directory can be read, is answered by an
  archive of the complete walk that holds, for every file, one entry named by the file's
  path relative to the directory with the file's bytes and, for every subdirectory, one
  entry named by its relative path and a separator, without content. The encoding of
  the entries by the zip writer and their decoding on extraction are the library's and
  are not modelled: an entry stands for its name and the bytes written to it.
\<close>

theorem zip_archive_entries:
  assumes "is_rooted (rootDir fh)"
    and "Method r \<noteq> ''OPTIONS''" and "\<not> HasPrefix (URL_Path r) ''/api/''"
    and "\<not> (Method r = ''POST'' \<and> URL_Path r = ''/upload'')"
    and "fsPath = resolve (rootDir fh)
           (clean_request (if URL_Path r = [] \<or> URL_Path r = ''/'' then ''/'' else URL_Path r))"
    and "HasPrefix fsPath (rootDir fh)"
    and "os_Stat env fsPath = StatOK st" and "fi_IsDir st"
    and "Get (URL_Query r) ''download'' = ''zip''"
    and "os_Tree env fsPath = DirNode n cs" and "well_formed_list cs"
  shows "walk fsPath fsPath (DirNode n cs) = (spec_children [] cs, True) \<and>
         Content (fst (serveDirectoryAsZip env fh r fsPath (fi_Name st)))
           = ZipBody (spec_children [] cs) True \<and>
         Content (fst (ServeHTTP env fh r)) = ZipBody (spec_children [] cs) True"
proof -
  from resolve_clean_abs [OF assms(1)] assms(5)
  have "is_rooted fsPath" "Clean fsPath = fsPath" by simp_all
  then have w: "walk fsPath fsPath (DirNode n cs) = (spec_children [] cs, True)"
    using assms(11) by (rule walk_root)
  then have z: "Content (fst (serveDirectoryAsZip env fh r fsPath (fi_Name st)))
      = ZipBody (spec_children [] cs) True"
    using assms(10) by (simp add: serveDirectoryAsZip_def respond_def)
  have na: "URL_Path r \<noteq> ''/api/auth/check''"
    using assms(3) by (auto simp: HasPrefix_def)
  have up: "(Method r = ''POST'' \<and> URL_Path r = ''/upload'') = False"
    using assms(4) by simp
  have "fst (ServeHTTP env fh r) = fst (serveDirectoryAsZip env fh r fsPath (fi_Name st))"
  proof (cases "URL_Path r = [] \<or> URL_Path r = ''/''")
    case True
    with assms(2,3,5-9) na show ?thesis
      by (simp add: ServeHTTP_def Let_def up split: prod.splits)
  next
    case False
    with assms(2,3,5-9) na show ?thesis
      by (simp add: ServeHTTP_def Let_def up split: prod.splits)
  qed
  with w z show ?thesis by simp
qed

theorem zip_archive_entries_witness:
  "walk ''/share/docs'' ''/share/docs'' (DirNode ''docs'' docs_tree)
     = ([ZipEntry ''a.txt'' ''hello'', ZipEntry ''sub/'' []], True) \<and>
   Content (fst (ServeHTTP docs_fs share
      (request ''GET'' ''/docs'' [(''download'', ''zip'')] [] [] None)))
     = ZipBody [ZipEntry ''a.txt'' ''hello'', ZipEntry ''sub/'' []] True"
proof -
  let ?r = "request ''GET'' ''/docs'' [(''download'', ''zip'')] [] [] None"
  let ?st = "\<lparr>fi_Name = ''docs'', fi_Size = 4096, fi_ModTime = 0, fi_IsDir = True\<rparr>"
  have h1: "is_rooted (rootDir share)" by (simp add: share_def is_rooted_def)
  have h2: "Method ?r \<noteq> ''OPTIONS''" by (simp add: request_def)
  have h3: "\<not> HasPrefix (URL_Path ?r) ''/api/''" by (simp add: request_def HasPrefix_def)
  have h4: "\<not> (Method ?r = ''POST'' \<and> URL_Path ?r = ''/upload'')" by (simp add: request_def)
  have h5: "''/share/docs'' = resolve (rootDir share)
      (clean_request (if URL_Path ?r = [] \<or> URL_Path ?r = ''/'' then ''/'' else URL_Path ?r))"
    by code_simp
  have h6: "HasPrefix ''/share/docs'' (rootDir share)" by code_simp
  have h7: "os_Stat docs_fs ''/share/docs'' = StatOK ?st" by (simp add: docs_fs_def)
  have h8: "fi_IsDir ?st" by simp
  have h9: "Get (URL_Query ?r) ''download'' = ''zip''" by (simp add: request_def Get_def)
  have h10: "os_Tree docs_fs ''/share/docs'' = DirNode ''docs'' docs_tree"
    by (simp add: docs_fs_def)
  have h11: "well_formed_list docs_tree" by (simp add: docs_tree_def valid_name_def)
  have s: "spec_children [] docs_tree = [ZipEntry ''a.txt'' ''hello'', ZipEntry ''sub/'' []]"
    by (simp add: docs_tree_def)
  from zip_archive_entries [OF h1 h2 h3 h4 h5 h6 h7 h8 h9 h10 h11]
  show ?thesis unfolding s by simp
qed

end
